theory Spec2Isabelle
  imports Main
begin

section \<open>Conlang Studio: the Gemini service layer\<close>

text \<open>
  This development embeds \<^verbatim>\<open>src/services/geminiService.ts\<close>: the tolerant JSON
  extraction \<^verbatim>\<open>safeParseJSON\<close>, the phonology normaliser
  \<^verbatim>\<open>safeParsePhonologyConfig\<close> and the seven exported operations built on them.

  Conventions of the embedding.
  \<^item> A JavaScript string is a \<open>string\<close>; one \<open>char\<close> stands for one UTF-16 code unit
    below 256, so the white space of \<^verbatim>\<open>trim()\<close> and of the regular expression class
    \<^verbatim>\<open>\s\<close> is tab, line feed, vertical tab, form feed, carriage return, space and
    the no-break space 0xA0.
  \<^item> A run-time value is a \<open>jsval\<close>; the numbers covered are the integers.
  \<^item> A thrown \<^verbatim>\<open>Error\<close> object is an \<open>exn\<close>: its \<^verbatim>\<open>name\<close> and its
    \<^verbatim>\<open>message\<close>. A function that may throw returns \<open>exn + 'a\<close>.
  \<^item> \<^verbatim>\<open>JSON.parse\<close> and \<^verbatim>\<open>JSON.stringify\<close> belong to the platform and the
    remote model belongs to the network: they are parameters \<open>parse\<close>,
    \<open>stringify\<close> and \<open>remote\<close> of every function that uses them.
\<close>

subsection \<open>Values and exceptions\<close>

datatype jsval =
    JUndef
  | JNull
  | JBool bool
  | JNum int
  | JStr string
  | JArr "jsval list"
  | JObj "(string \<times> jsval) list"

type_synonym obj = "(string \<times> jsval) list"

datatype exn = Exn (ename: string) (emessage: string)

type_synonym json_parser = "string \<Rightarrow> exn + jsval"

subsection \<open>String primitives of the platform\<close>

definition is_space :: "char \<Rightarrow> bool" where
  "is_space c = (c \<in> set [CHR 0x09, CHR 0x0A, CHR 0x0B, CHR 0x0C, CHR 0x0D, CHR 0x20, CHR 0xA0])"

definition is_word_char :: "char \<Rightarrow> bool" where
  "is_word_char c =
     (let n = of_char c :: nat in
      (65 \<le> n \<and> n \<le> 90) \<or> (97 \<le> n \<and> n \<le> 122) \<or> (48 \<le> n \<and> n \<le> 57) \<or> n = 95)"

text \<open>\<^verbatim>\<open>s.trim()\<close>.\<close>

definition trim :: "string \<Rightarrow> string" where
  "trim s = rev (dropWhile is_space (rev (dropWhile is_space s)))"

text \<open>\<^verbatim>\<open>s.indexOf(c)\<close> and \<^verbatim>\<open>s.lastIndexOf(c)\<close>, with \<open>None\<close> for -1.\<close>

fun indexOf :: "string \<Rightarrow> char \<Rightarrow> nat option" where
  "indexOf [] c = None"
| "indexOf (x # xs) c = (if x = c then Some 0 else map_option Suc (indexOf xs c))"

fun lastIndexOf :: "string \<Rightarrow> char \<Rightarrow> nat option" where
  "lastIndexOf [] c = None"
| "lastIndexOf (x # xs) c =
     (case lastIndexOf xs c of
        Some i \<Rightarrow> Some (Suc i)
      | None \<Rightarrow> (if x = c then Some 0 else None))"

text \<open>\<^verbatim>\<open>s.substring(a, b)\<close> for \<open>a \<le> b\<close>, and \<^verbatim>\<open>s.substring(a)\<close>.\<close>

definition substring :: "string \<Rightarrow> nat \<Rightarrow> nat \<Rightarrow> string" where
  "substring s a b = take (b - a) (drop a s)"

definition substring_from :: "string \<Rightarrow> nat \<Rightarrow> string" where
  "substring_from s a = drop a s"

definition startsWith :: "string \<Rightarrow> char \<Rightarrow> bool" where
  "startsWith s c = (case s of [] \<Rightarrow> False | x # _ \<Rightarrow> x = c)"

text \<open>The offset of the first occurrence of a pattern in a string.\<close>

fun find_sub :: "string \<Rightarrow> string \<Rightarrow> nat option" where
  "find_sub pat [] = (if pat = [] then Some 0 else None)"
| "find_sub pat (x # xs) =
     (if take (length pat) (x # xs) = pat then Some 0
      else map_option Suc (find_sub pat xs))"

text \<open>
  \<^verbatim>\<open>s.match(re)\<close> for a regular expression without the global flag: the engine tries
  the start positions from left to right and returns the first position where the
  expression matches. \<open>at\<close> is the match of the expression at the head of a string.
\<close>

fun regex_search :: "(string \<Rightarrow> 'a option) \<Rightarrow> string \<Rightarrow> 'a option" where
  "regex_search at [] = at []"
| "regex_search at (x # xs) =
     (case at (x # xs) of Some m \<Rightarrow> Some m | None \<Rightarrow> regex_search at xs)"

subsection \<open>safeParseJSON\<close>

definition fence_open :: string where
  "fence_open = ''```json'' @ [CHR 0x0A]"

definition fence_close :: string where
  "fence_close = CHR 0x0A # ''```''"

text \<open>
  The expression \<^verbatim>\<open>/```json\n([\s\S]*?)\n```/\<close> at the head of a string; the result
  is the capture group 1. The group is lazy, so it ends at the first closing fence.
\<close>

definition markdown_at :: "string \<Rightarrow> string option" where
  "markdown_at s =
     (if take (length fence_open) s = fence_open then
        (let r = drop (length fence_open) s in
         case find_sub fence_close r of
           Some k \<Rightarrow> Some (take k r)
         | None \<Rightarrow> None)
      else None)"

definition markdownMatch :: "string \<Rightarrow> string option" where
  "markdownMatch text = regex_search markdown_at text"

text \<open>
  The expression \<^verbatim>\<open>/{\s*[\"'\w\d]*?:[\s\S]*?}/\<close> at the head of a string; the
  result is the whole match. White space, key characters and the colon are disjoint
  classes, so the greedy and the lazy star both stop at the first character outside
  their class, and the lazy tail ends at the first closing brace.
\<close>

definition is_key_char :: "char \<Rightarrow> bool" where
  "is_key_char c = (c = CHR 0x22 \<or> c = CHR 0x27 \<or> is_word_char c)"

definition aggressive_at :: "string \<Rightarrow> string option" where
  "aggressive_at s =
     (case s of
        [] \<Rightarrow> None
      | c # r \<Rightarrow>
          if c = CHR ''{'' then
            (let ws = takeWhile is_space r;
                 r1 = dropWhile is_space r;
                 key = takeWhile is_key_char r1;
                 r2 = dropWhile is_key_char r1
             in case r2 of
                  [] \<Rightarrow> None
                | d # r3 \<Rightarrow>
                    if d = CHR '':'' then
                      (case indexOf r3 (CHR ''}'') of
                         Some k \<Rightarrow> Some (c # ws @ key @ d # take (Suc k) r3)
                       | None \<Rightarrow> None)
                    else None)
          else None)"

definition aggressiveMatch :: "string \<Rightarrow> string option" where
  "aggressiveMatch text = regex_search aggressive_at text"

text \<open>
  The first half of the \<^verbatim>\<open>try\<close> block: the choice of the candidate string. A
  capture is used only when it is truthy, that is, not the empty string.
\<close>

definition select_candidate :: "string \<Rightarrow> string" where
  "select_candidate text =
     (case markdownMatch text of
        Some (c # cs) \<Rightarrow> c # cs
      | _ \<Rightarrow>
          (let firstCurly = indexOf text (CHR ''{'');
               lastCurly = lastIndexOf text (CHR ''}'')
           in if firstCurly \<noteq> None \<and> lastCurly \<noteq> None \<and> the lastCurly > the firstCurly
              then substring text (the firstCurly) (the lastCurly + 1)
              else (case aggressiveMatch text of
                      Some (c # cs) \<Rightarrow> c # cs
                    | _ \<Rightarrow> trim text)))"

definition NoJSONStart :: exn where
  "NoJSONStart = Exn ''Error'' ''No valid JSON start found after aggressive cleaning.''"

text \<open>The second half: trimming, and truncation to the first bracket or brace.\<close>

definition clean_candidate :: "string \<Rightarrow> exn + string" where
  "clean_candidate c =
     (let jsonString = trim c in
      if \<not> startsWith jsonString (CHR ''{'') \<and> \<not> startsWith jsonString (CHR ''['') then
        (let firstBracket = indexOf jsonString (CHR ''['');
             firstBrace = indexOf jsonString (CHR ''{'')
         in if firstBracket \<noteq> None \<and> (firstBrace = None \<or> the firstBracket < the firstBrace)
            then Inr (substring_from jsonString (the firstBracket))
            else if firstBrace \<noteq> None
            then Inr (substring_from jsonString (the firstBrace))
            else Inl NoJSONStart)
      else Inr jsonString)"

text \<open>The body of the \<^verbatim>\<open>try\<close> block.\<close>

definition safeParseJSON_try :: "json_parser \<Rightarrow> string \<Rightarrow> exn + jsval" where
  "safeParseJSON_try parse text =
     (case clean_candidate (select_candidate text) of
        Inl e \<Rightarrow> Inl e
      | Inr jsonString \<Rightarrow> parse jsonString)"

text \<open>
  The console is a list of entries, each the list of the arguments of one
  \<^verbatim>\<open>console.error\<close> call. \<open>safeParseJSON_log\<close> is the function with its
  effect: the entries it writes and its outcome. The \<^verbatim>\<open>catch\<close> clause writes the raw
  text and throws the same exception again.
\<close>

definition safeParseJSON_log :: "json_parser \<Rightarrow> string \<Rightarrow> string list list \<times> (exn + jsval)" where
  "safeParseJSON_log parse text =
     (case safeParseJSON_try parse text of
        Inl e \<Rightarrow> ([[''JSON Parse Error. Raw content:'', text]], Inl e)
      | Inr v \<Rightarrow> ([], Inr v))"

definition safeParseJSON :: "json_parser \<Rightarrow> string \<Rightarrow> exn + jsval" where
  "safeParseJSON parse text = snd (safeParseJSON_log parse text)"

subsection \<open>Dynamic semantics of values\<close>

definition TypeError :: "string \<Rightarrow> exn" where
  "TypeError m = Exn ''TypeError'' m"

definition truthy :: "jsval \<Rightarrow> bool" where
  "truthy v =
     (case v of
        JUndef \<Rightarrow> False
      | JNull \<Rightarrow> False
      | JBool b \<Rightarrow> b
      | JNum n \<Rightarrow> n \<noteq> 0
      | JStr s \<Rightarrow> s \<noteq> []
      | _ \<Rightarrow> True)"

text \<open>
  \<^verbatim>\<open>a === b\<close> between a value held by the caller and a value of a parsed
  response. Arrays and objects are compared by reference, and a response never shares
  one with the caller, so they are never equal.
\<close>

definition strict_eq :: "jsval \<Rightarrow> jsval \<Rightarrow> bool" where
  "strict_eq a b =
     (case (a, b) of
        (JUndef, JUndef) \<Rightarrow> True
      | (JNull, JNull) \<Rightarrow> True
      | (JBool x, JBool y) \<Rightarrow> x = y
      | (JNum x, JNum y) \<Rightarrow> x = y
      | (JStr x, JStr y) \<Rightarrow> x = y
      | _ \<Rightarrow> False)"

text \<open>
  An object is its list of properties; the first binding of a key is its value (an object
  literal and \<^verbatim>\<open>JSON.parse\<close> never produce a second one). \<open>obj_set\<close> is the assignment
  of one property: an existing key keeps its place.
\<close>

fun obj_set :: "string \<Rightarrow> jsval \<Rightarrow> obj \<Rightarrow> obj" where
  "obj_set k v [] = [(k, v)]"
| "obj_set k v ((k', v') # ps) =
     (if k = k' then (k, v) # ps else (k', v') # obj_set k v ps)"

definition obj_get :: "obj \<Rightarrow> string \<Rightarrow> jsval" where
  "obj_get ps k = (case map_of ps k of Some v \<Rightarrow> v | None \<Rightarrow> JUndef)"

definition get_prop :: "jsval \<Rightarrow> string \<Rightarrow> exn + jsval" where
  "get_prop v k =
     (case v of
        JUndef \<Rightarrow> Inl (TypeError (''Cannot read properties of undefined (reading '' @ k @ '')''))
      | JNull \<Rightarrow> Inl (TypeError (''Cannot read properties of null (reading '' @ k @ '')''))
      | JObj ps \<Rightarrow> Inr (obj_get ps k)
      | _ \<Rightarrow> Inr JUndef)"

fun dec_digits :: "nat \<Rightarrow> string" where
  "dec_digits n =
     (if n < 10 then [char_of (48 + n)]
      else dec_digits (n div 10) @ [char_of (48 + n mod 10)])"

declare dec_digits.simps [simp del]

definition show_int :: "int \<Rightarrow> string" where
  "show_int i = (if i < 0 then CHR ''-'' # dec_digits (nat (- i)) else dec_digits (nat i))"

fun join :: "string \<Rightarrow> string list \<Rightarrow> string" where
  "join sep [] = []"
| "join sep [x] = x"
| "join sep (x # y # ys) = x @ sep @ join sep (y # ys)"

fun to_str :: "jsval \<Rightarrow> string" where
  "to_str JUndef = ''undefined''"
| "to_str JNull = ''null''"
| "to_str (JBool b) = (if b then ''true'' else ''false'')"
| "to_str (JNum n) = show_int n"
| "to_str (JStr s) = s"
| "to_str (JArr xs) =
     join '','' (map (\<lambda>x. if x = JUndef \<or> x = JNull then [] else to_str x) xs)"
| "to_str (JObj ps) = ''[object Object]''"

definition array_join :: "string \<Rightarrow> jsval list \<Rightarrow> string" where
  "array_join sep xs = join sep (map (\<lambda>x. if x = JUndef \<or> x = JNull then [] else to_str x) xs)"

definition own_props :: "jsval \<Rightarrow> obj" where
  "own_props v =
     (case v of
        JObj ps \<Rightarrow> map (\<lambda>k. (k, obj_get ps k)) (remdups (map fst ps))
      | JArr xs \<Rightarrow> zip (map dec_digits [0..<length xs]) xs
      | JStr s \<Rightarrow> zip (map dec_digits [0..<length s]) (map (\<lambda>c. JStr [c]) s)
      | _ \<Rightarrow> [])"

definition spread :: "obj \<Rightarrow> jsval \<Rightarrow> obj" where
  "spread target source = fold (\<lambda>(k, v). obj_set k v) (own_props source) target"

definition iterate :: "jsval \<Rightarrow> exn + jsval list" where
  "iterate v =
     (case v of
        JArr xs \<Rightarrow> Inr xs
      | JStr s \<Rightarrow> Inr (map (\<lambda>c. JStr [c]) s)
      | _ \<Rightarrow> Inl (TypeError ''Spread syntax requires ...iterable[Symbol.iterator] to be a function''))"

definition slice :: "'a list \<Rightarrow> nat \<Rightarrow> nat \<Rightarrow> 'a list" where
  "slice xs a b = take (b - a) (drop a xs)"

subsection \<open>A reference \<^verbatim>\<open>JSON.parse\<close>\<close>

text \<open>
  The general results below hold for every \<open>parse\<close>. The examples need a concrete one:
  \<open>JSON_parse\<close> is a recursive-descent parser of the JSON grammar restricted to integer
  numbers and to the two-character escapes (it rejects fractions, exponents and
  \<^verbatim>\<open>\u\<close> escapes, which no example uses). A repeated key keeps its first place and
  its last value, as in \<^verbatim>\<open>JSON.parse\<close>. The first argument of the three parsing
  functions bounds the nesting and the number of elements; \<open>JSON_parse\<close> starts with
  more than the length of the text.
\<close>

definition is_json_ws :: "char \<Rightarrow> bool" where
  "is_json_ws c = (c = CHR 0x20 \<or> c = CHR 0x09 \<or> c = CHR 0x0A \<or> c = CHR 0x0D)"

definition is_digit :: "char \<Rightarrow> bool" where
  "is_digit c = (let n = of_char c :: nat in 48 \<le> n \<and> n \<le> 57)"

definition digits_value :: "string \<Rightarrow> nat" where
  "digits_value ds = foldl (\<lambda>a c. 10 * a + (of_char c - 48)) 0 ds"

definition unescape :: "char \<Rightarrow> char option" where
  "unescape e =
     (if e = CHR 0x22 then Some (CHR 0x22)
      else if e = CHR 0x5C then Some (CHR 0x5C)
      else if e = CHR ''/'' then Some (CHR ''/'')
      else if e = CHR ''b'' then Some (CHR 0x08)
      else if e = CHR ''f'' then Some (CHR 0x0C)
      else if e = CHR ''n'' then Some (CHR 0x0A)
      else if e = CHR ''r'' then Some (CHR 0x0D)
      else if e = CHR ''t'' then Some (CHR 0x09)
      else None)"

fun lex_string :: "string \<Rightarrow> (string \<times> string) option" where
  "lex_string [] = None"
| "lex_string [c] = (if c = CHR 0x22 then Some ([], []) else None)"
| "lex_string (c # d # cs) =
     (if c = CHR 0x22 then Some ([], d # cs)
      else if c = CHR 0x5C then
        (case unescape d of
           None \<Rightarrow> None
         | Some u \<Rightarrow> map_option (\<lambda>(s, r). (u # s, r)) (lex_string cs))
      else if (of_char c :: nat) < 32 then None
      else map_option (\<lambda>(s, r). (c # s, r)) (lex_string (d # cs)))"

definition lex_number :: "string \<Rightarrow> (int \<times> string) option" where
  "lex_number s =
     (let neg = (case s of c # _ \<Rightarrow> c = CHR ''-'' | [] \<Rightarrow> False);
          s1 = (if neg then tl s else s);
          ds = takeWhile is_digit s1;
          r = dropWhile is_digit s1
      in if ds = [] \<or> (length ds > 1 \<and> hd ds = CHR ''0'') then None
         else if (case r of c # _ \<Rightarrow> c \<in> set ''.eE'' | [] \<Rightarrow> False) then None
         else Some (if neg then - int (digits_value ds) else int (digits_value ds), r))"

fun parse_value :: "nat \<Rightarrow> string \<Rightarrow> (jsval \<times> string) option"
  and parse_elems :: "nat \<Rightarrow> jsval list \<Rightarrow> string \<Rightarrow> (jsval \<times> string) option"
  and parse_members :: "nat \<Rightarrow> obj \<Rightarrow> string \<Rightarrow> (jsval \<times> string) option"
where
  "parse_value 0 s = None"
| "parse_value (Suc n) s =
     (case dropWhile is_json_ws s of
        [] \<Rightarrow> None
      | c # r \<Rightarrow>
          if c = CHR ''{'' then
            (case dropWhile is_json_ws r of
               [] \<Rightarrow> None
             | d # r' \<Rightarrow> if d = CHR ''}'' then Some (JObj [], r') else parse_members n [] r)
          else if c = CHR ''['' then
            (case dropWhile is_json_ws r of
               [] \<Rightarrow> None
             | d # r' \<Rightarrow> if d = CHR '']'' then Some (JArr [], r') else parse_elems n [] r)
          else if c = CHR 0x22 then map_option (\<lambda>(s, r'). (JStr s, r')) (lex_string r)
          else if take 4 (c # r) = ''true'' then Some (JBool True, drop 3 r)
          else if take 5 (c # r) = ''false'' then Some (JBool False, drop 4 r)
          else if take 4 (c # r) = ''null'' then Some (JNull, drop 3 r)
          else map_option (\<lambda>(i, r'). (JNum i, r')) (lex_number (c # r)))"
| "parse_elems 0 acc s = None"
| "parse_elems (Suc n) acc s =
     (case parse_value n s of
        None \<Rightarrow> None
      | Some (v, r) \<Rightarrow>
          (case dropWhile is_json_ws r of
             [] \<Rightarrow> None
           | c # r' \<Rightarrow>
               if c = CHR '','' then parse_elems n (acc @ [v]) r'
               else if c = CHR '']'' then Some (JArr (acc @ [v]), r')
               else None))"
| "parse_members 0 acc s = None"
| "parse_members (Suc n) acc s =
     (case dropWhile is_json_ws s of
        [] \<Rightarrow> None
      | q # r0 \<Rightarrow>
          if q \<noteq> CHR 0x22 then None
          else
            (case lex_string r0 of
               None \<Rightarrow> None
             | Some (k, r1) \<Rightarrow>
                 (case dropWhile is_json_ws r1 of
                    [] \<Rightarrow> None
                  | c # r2 \<Rightarrow>
                      if c \<noteq> CHR '':'' then None
                      else
                        (case parse_value n r2 of
                           None \<Rightarrow> None
                         | Some (v, r3) \<Rightarrow>
                             (case dropWhile is_json_ws r3 of
                                [] \<Rightarrow> None
                              | d # r4 \<Rightarrow>
                                  if d = CHR '','' then parse_members n (obj_set k v acc) r4
                                  else if d = CHR ''}'' then Some (JObj (obj_set k v acc), r4)
                                  else None)))))"

definition JSON_parse :: json_parser where
  "JSON_parse s =
     (case parse_value (Suc (length s)) s of
        Some (v, r) \<Rightarrow>
          if dropWhile is_json_ws r = [] then Inr v
          else Inl (Exn ''SyntaxError'' ''Unexpected non-whitespace character after JSON'')
      | None \<Rightarrow> Inl (Exn ''SyntaxError'' ''Unexpected token or end of JSON input''))"


text \<open>
  A reference \<^verbatim>\<open>JSON.stringify\<close> for the examples: compact output, a property whose
  value is \<^verbatim>\<open>undefined\<close> left out, \<^verbatim>\<open>undefined\<close> in an array printed as
  \<^verbatim>\<open>null\<close>.
\<close>

definition hex_digit :: "nat \<Rightarrow> char" where
  "hex_digit n = (if n < 10 then char_of (48 + n) else char_of (87 + n))"

definition escape_char :: "char \<Rightarrow> string" where
  "escape_char c =
     (if c = CHR 0x22 then [CHR 0x5C, CHR 0x22]
      else if c = CHR 0x5C then [CHR 0x5C, CHR 0x5C]
      else if c = CHR 0x08 then [CHR 0x5C, CHR ''b'']
      else if c = CHR 0x0C then [CHR 0x5C, CHR ''f'']
      else if c = CHR 0x0A then [CHR 0x5C, CHR ''n'']
      else if c = CHR 0x0D then [CHR 0x5C, CHR ''r'']
      else if c = CHR 0x09 then [CHR 0x5C, CHR ''t'']
      else if (of_char c :: nat) < 32
        then [CHR 0x5C, CHR ''u'', CHR ''0'', CHR ''0'',
              hex_digit (of_char c div 16), hex_digit (of_char c mod 16)]
      else [c])"

definition quote :: "string \<Rightarrow> string" where
  "quote s = CHR 0x22 # concat (map escape_char s) @ [CHR 0x22]"

fun JSON_stringify :: "jsval \<Rightarrow> string" where
  "JSON_stringify JUndef = ''null''"
| "JSON_stringify JNull = ''null''"
| "JSON_stringify (JBool b) = (if b then ''true'' else ''false'')"
| "JSON_stringify (JNum n) = show_int n"
| "JSON_stringify (JStr s) = quote s"
| "JSON_stringify (JArr xs) = ''['' @ join '','' (map JSON_stringify xs) @ '']''"
| "JSON_stringify (JObj ps) =
     ''{'' @ join '',''
              (map (\<lambda>p. quote (fst p) @ '':'' @ JSON_stringify (snd p))
                 (filter (\<lambda>p. snd p \<noteq> JUndef) ps))
     @ ''}''"

subsection \<open>The platform, the credential and the remote model\<close>

text \<open>
  What an operation finds around it: the key in \<^verbatim>\<open>localStorage\<close> (\<open>None\<close> for
  \<^verbatim>\<open>null\<close>), the key of the build environment (\<open>None\<close> for \<^verbatim>\<open>undefined\<close>), the
  remote model, and the platform's JSON functions. \<open>remote w k p\<close> is the outcome of the
  \<open>k\<close>-th \<^verbatim>\<open>generateContent\<close> call of the operation (counted from 0), sent with the
  prompt \<open>p\<close>, up to and including \<^verbatim>\<open>response.text()\<close>; \<open>Inl\<close> is a rejection.

  An operation returns the list of the prompts it has sent, in order, with its result.
  Console output is write-only and is left out of the operations.
\<close>

record platform =
  stored_key :: "string option"
  env_key :: "string option"
  remote :: "nat \<Rightarrow> string \<Rightarrow> exn + string"
  parse :: json_parser
  stringify :: "jsval \<Rightarrow> string"

definition strip_quotes :: "string \<Rightarrow> string" where
  \<comment> \<open>\<^verbatim>\<open>replace(/^["']|["']$/g, '')\<close>\<close>
  "strip_quotes s =
     (let is_quote = (\<lambda>c. c = CHR 0x22 \<or> c = CHR 0x27);
          s1 = (case s of [] \<Rightarrow> [] | c # r \<Rightarrow> if is_quote c then r else c # r)
      in if s1 \<noteq> [] \<and> is_quote (last s1) then butlast s1 else s1)"

definition getApiKey :: "platform \<Rightarrow> string" where
  "getApiKey w =
     (let key =
        (case stored_key w of
           Some (c # cs) \<Rightarrow> c # cs
         | _ \<Rightarrow> (case env_key w of Some (c # cs) \<Rightarrow> c # cs | _ \<Rightarrow> []))
      in strip_quotes (trim key))"

definition isApiKeySet :: "platform \<Rightarrow> bool" where
  "isApiKeySet w = (getApiKey w \<noteq> [])"

definition ConfigurationError :: exn where
  "ConfigurationError = Exn ''Error'' ''API Key not configured. Please set it in Settings.''"

text \<open>The client handle is the trimmed key.\<close>

definition getGenAI :: "platform \<Rightarrow> exn + string" where
  "getGenAI w =
     (let key = getApiKey w in
      if key = [] then Inl ConfigurationError else Inr (trim key))"

definition nl :: string where
  "nl = [CHR 0x0A]"

text \<open>\<^verbatim>\<open>e?.toString()\<close> of an \<^verbatim>\<open>Error\<close> object.\<close>

definition error_toString :: "exn \<Rightarrow> string" where
  "error_toString e =
     (if ename e = [] then emessage e
      else if emessage e = [] then ename e
      else ename e @ '': '' @ emessage e)"

text \<open>\<^verbatim>\<open>e?.message || e?.toString() || "Unknown error"\<close>.\<close>

definition errorMsg :: "exn \<Rightarrow> string" where
  "errorMsg e =
     (if emessage e \<noteq> [] then emessage e
      else if error_toString e \<noteq> [] then error_toString e
      else ''Unknown error'')"

subsection \<open>The caller's data\<close>

text \<open>
  A lexicon entry is an object: TypeScript's \<^verbatim>\<open>LexiconEntry\<close> is erased at run time,
  and the operations store into an entry whatever the response holds. The constraints
  and the sound-change rules are only read.
\<close>

record ProjectConstraints =
  bannedSequences :: "string list"
  allowedGraphemes :: string
  phonotacticStructure :: string

record SoundChangeRule =
  rule :: string

record PhonologyConfig =
  name :: string
  description :: string
  consonants :: "jsval list"
  vowels :: "jsval list"
  syllableStructure :: string
  bannedCombinations :: "jsval list"

record op_result =
  success :: bool
  message :: "string option"

record repair_result = op_result +
  repairs :: "jsval list"

record command_result = op_result +
  modifiedCount :: nat
  newLexicon :: "obj list option"

subsection \<open>safeParsePhonologyConfig\<close>

definition string_or_empty :: "jsval \<Rightarrow> string" where
  \<comment> \<open>\<^verbatim>\<open>typeof v === 'string' ? v : ''\<close>\<close>
  "string_or_empty v = (case v of JStr s \<Rightarrow> s | _ \<Rightarrow> [])"

definition array_or_empty :: "jsval \<Rightarrow> jsval list" where
  \<comment> \<open>\<^verbatim>\<open>Array.isArray(v) ? v : []\<close>\<close>
  "array_or_empty v = (case v of JArr xs \<Rightarrow> xs | _ \<Rightarrow> [])"

text \<open>
  The part of \<^verbatim>\<open>safeParsePhonologyConfig\<close> after the extraction (the specification's
  \<^verbatim>\<open>normalizePhonology\<close>). The six property reads happen in the order of the object
  literal; a read of \<^verbatim>\<open>null\<close> or \<^verbatim>\<open>undefined\<close> throws.
\<close>

definition normalizePhonology :: "jsval \<Rightarrow> exn + PhonologyConfig" where
  "normalizePhonology parsed =
     (case get_prop parsed ''name'' of Inl e \<Rightarrow> Inl e | Inr n \<Rightarrow>
      case get_prop parsed ''description'' of Inl e \<Rightarrow> Inl e | Inr d \<Rightarrow>
      case get_prop parsed ''consonants'' of Inl e \<Rightarrow> Inl e | Inr c \<Rightarrow>
      case get_prop parsed ''vowels'' of Inl e \<Rightarrow> Inl e | Inr v \<Rightarrow>
      case get_prop parsed ''syllableStructure'' of Inl e \<Rightarrow> Inl e | Inr s \<Rightarrow>
      case get_prop parsed ''bannedCombinations'' of Inl e \<Rightarrow> Inl e | Inr b \<Rightarrow>
        Inr \<lparr> name = string_or_empty n,
              description = string_or_empty d,
              consonants = array_or_empty c,
              vowels = array_or_empty v,
              syllableStructure = string_or_empty s,
              bannedCombinations = array_or_empty b \<rparr>)"

definition safeParsePhonologyConfig :: "json_parser \<Rightarrow> string \<Rightarrow> exn + PhonologyConfig" where
  "safeParsePhonologyConfig p text =
     (case safeParseJSON p text of
        Inl e \<Rightarrow> Inl e
      | Inr parsed \<Rightarrow> normalizePhonology parsed)"

subsection \<open>repairLexicon\<close>

definition repair_rules :: "ProjectConstraints \<Rightarrow> string" where
  "repair_rules constraints =
     nl @ ''    CONSTRAINTS:'' @ nl
     @ ''    - Banned: ''
     @ (let b = join '', '' (bannedSequences constraints) in if b = [] then ''None'' else b) @ nl
     @ ''    - Graphemes (Regex): ''
     @ (if allowedGraphemes constraints = [] then ''Any'' else allowedGraphemes constraints) @ nl
     @ ''    - Structure: ''
     @ (if phonotacticStructure constraints = [] then ''Free''
        else phonotacticStructure constraints) @ nl
     @ ''    ''"

definition repair_prompt :: "platform \<Rightarrow> string \<Rightarrow> obj list \<Rightarrow> string" where
  \<open>repair_prompt w rules chunk =
     ''You are a linguistic repair engineer. '' @ nl @ nl
     @ ''Task: Fix the following constructed words so they comply with the rules below. '' @ nl
     @ ''Rules:'' @ nl
     @ rules
     @ nl @ ''Keep the phonological soul of the word while fixing violations.'' @ nl @ nl
     @ ''Input List (JSON):'' @ nl
     @ stringify w
         (JArr (map (\<lambda>e. JObj [(''id'', obj_get e ''id''),
                                 (''word'', obj_get e ''word''),
                                 (''ipa'', obj_get e ''ipa'')]) chunk))
     @ nl @ nl
     @ ''Output: Return a valid JSON array of objects with "id", "word", and "ipa".''\<close>

text \<open>
  The \<^verbatim>\<open>for\<close> loop, from the index \<open>i\<close>, with the prompts sent so far and the
  repairs pushed so far. \<^verbatim>\<open>CHUNK_SIZE\<close> is 15.
\<close>

function repair_loop ::
  "platform \<Rightarrow> string \<Rightarrow> obj list \<Rightarrow> nat \<Rightarrow> string list \<Rightarrow> jsval list
     \<Rightarrow> string list \<times> (exn + jsval list)" where
  "repair_loop w rules invalidEntries i calls allRepairs =
     (if i < length invalidEntries then
        (let chunk = slice invalidEntries i (i + 15);
             prompt = repair_prompt w rules chunk
         in case remote w (length calls) prompt of
              Inl e \<Rightarrow> (calls @ [prompt], Inl e)
            | Inr text \<Rightarrow>
                (case safeParseJSON (parse w) text of
                   Inl e \<Rightarrow> (calls @ [prompt], Inl e)
                 | Inr repairedChunk \<Rightarrow>
                     (case iterate repairedChunk of
                        Inl e \<Rightarrow> (calls @ [prompt], Inl e)
                      | Inr xs \<Rightarrow>
                          repair_loop w rules invalidEntries (i + 15)
                            (calls @ [prompt]) (allRepairs @ xs))))
      else (calls, Inr allRepairs))"
  by pat_completeness auto
termination
  by (relation "measure (\<lambda>(w, rules, es, i, calls, acc). length es - i)") auto

declare repair_loop.simps [simp del]

definition repairLexicon_try ::
  "platform \<Rightarrow> obj list \<Rightarrow> string \<Rightarrow> string list \<times> (exn + jsval list)" where
  "repairLexicon_try w invalidEntries rules =
     (case getGenAI w of
        Inl e \<Rightarrow> ([], Inl e)
      | Inr genAI \<Rightarrow> repair_loop w rules invalidEntries 0 [] [])"

definition repairLexicon ::
  "platform \<Rightarrow> obj list \<Rightarrow> ProjectConstraints \<Rightarrow> string list \<times> repair_result" where
  "repairLexicon w invalidEntries constraints =
     (if length invalidEntries = 0 then ([], \<lparr> success = True, message = None, repairs = [] \<rparr>)
      else
        (case repairLexicon_try w invalidEntries (repair_rules constraints) of
           (calls, Inr allRepairs) \<Rightarrow>
             (calls, \<lparr> success = True, message = None, repairs = allRepairs \<rparr>)
         | (calls, Inl e) \<Rightarrow>
             (calls,
              \<lparr> success = False,
                message = Some (''AI Repair Failed: '' @ errorMsg e
                                @ ''. Verifica tu API key en Settings.''),
                repairs = [] \<rparr>)))"

subsection \<open>suggestIPA and analyzeSyntax\<close>

definition suggestIPA :: "platform \<Rightarrow> string \<Rightarrow> string \<Rightarrow> string list \<times> string" where
  \<open>suggestIPA w word phonologyDescription =
     (case getGenAI w of
        Inl e \<Rightarrow> ([], ''/error/'')
      | Inr genAI \<Rightarrow>
          (let prompt =
             ''Given the following phonological rules/description: "'' @ phonologyDescription
             @ ''", provide the most likely IPA transcription for the word "'' @ word
             @ ''". Return ONLY the IPA string, enclosed in forward slashes.''
           in case remote w 0 prompt of
                Inl e \<Rightarrow> ([prompt], ''/error/'')
              | Inr text \<Rightarrow> ([prompt], trim text)))\<close>

text \<open>
  \<^verbatim>\<open>morphology\<close> is optional: \<open>JUndef\<close> when absent, and then
  \<^verbatim>\<open>JSON.stringify\<close> returns \<^verbatim>\<open>undefined\<close>, which the concatenation prints.
\<close>

definition analyzeSyntax ::
  "platform \<Rightarrow> string \<Rightarrow> string \<Rightarrow> jsval \<Rightarrow> string list \<times> string" where
  \<open>analyzeSyntax w sentence grammarRules morphology =
     (case getGenAI w of
        Inl e \<Rightarrow> ([], ''Error analyzing syntax. Verifica tu API key.'')
      | Inr genAI \<Rightarrow>
          (let prompt =
             ''Analyze sentence "'' @ sentence @ ''" using Grammar: '' @ grammarRules
             @ ''. Morphology: ''
             @ (if morphology = JUndef then ''undefined'' else stringify w morphology)
             @ ''. Provide gloss and AST.''
           in case remote w 0 prompt of
                Inl e \<Rightarrow> ([prompt], ''Error analyzing syntax. Verifica tu API key.'')
              | Inr text \<Rightarrow> ([prompt], text)))\<close>

subsection \<open>generateWords\<close>

definition globalRulesPrompt :: "ProjectConstraints option \<Rightarrow> string" where
  "globalRulesPrompt projectRules =
     (case projectRules of
        None \<Rightarrow> []
      | Some pr \<Rightarrow>
          (let banned =
                 (if length (bannedSequences pr) > 0
                  then ''Banned sequences: '' @ join '', '' (bannedSequences pr) @ ''.''
                  else []);
               allowed =
                 (if allowedGraphemes pr \<noteq> []
                  then ''Allowed characters (Regex): ['' @ allowedGraphemes pr @ ''].''
                  else []);
               structure =
                 (if phonotacticStructure pr \<noteq> []
                  then ''Must match Regex Structure: '' @ phonotacticStructure pr
                  else [])
           in ''STRICT RULES: '' @ banned @ '' '' @ allowed @ '' '' @ structure))"

definition NoWordsError :: exn where
  "NoWordsError = Exn ''Error''
     (''No words could be generated. This might be due to overly restrictive constraints ''
      @ ''or an issue with the AI model. Please adjust your constraints and try again.'')"

definition generateWords_try ::
  "platform \<Rightarrow> int \<Rightarrow> string \<Rightarrow> ProjectConstraints option
     \<Rightarrow> string list \<times> (exn + jsval list)" where
  \<open>generateWords_try w count vibe projectRules =
     (case getGenAI w of
        Inl e \<Rightarrow> ([], Inl e)
      | Inr genAI \<Rightarrow>
          (let safeCount = min count 15;
               prompt =
                 ''Generate '' @ show_int safeCount @ '' unique constructed words. Vibe: '' @ vibe
                 @ ''. '' @ globalRulesPrompt projectRules
                 @ ''. Return JSON array with "word" and "ipa".''
           in case remote w 0 prompt of
                Inl e \<Rightarrow> ([prompt], Inl e)
              | Inr text \<Rightarrow>
                  (case safeParseJSON (parse w) text of
                     Inl e \<Rightarrow> ([prompt], Inl e)
                   | Inr generatedWords \<Rightarrow>
                       (case generatedWords of
                          JArr (x # xs) \<Rightarrow> ([prompt], Inr (x # xs))
                        | _ \<Rightarrow> ([prompt], Inl NoWordsError)))))\<close>

text \<open>
  The \<^verbatim>\<open>catch\<close> clause throws a new error; the parameter \<^verbatim>\<open>constraints\<close> of the
  source is not used by it and is left out.
\<close>

definition generateWords ::
  "platform \<Rightarrow> int \<Rightarrow> string \<Rightarrow> ProjectConstraints option
     \<Rightarrow> string list \<times> (exn + jsval list)" where
  "generateWords w count vibe projectRules =
     (case generateWords_try w count vibe projectRules of
        (calls, Inr generatedWords) \<Rightarrow> (calls, Inr generatedWords)
      | (calls, Inl error) \<Rightarrow>
          (calls,
           Inl (Exn ''Error''
                  (''Error generating words: ''
                   @ (if emessage error \<noteq> [] then emessage error
                      else ''Verifica tu API key en Settings'')))))"

subsection \<open>evolveWords\<close>

definition evolve_prompt :: "SoundChangeRule list \<Rightarrow> obj list \<Rightarrow> string" where
  \<open>evolve_prompt rules chunk =
     ''Apply sound changes: '' @ join nl (map rule rules)
     @ ''. Words: '' @ array_join '', '' (map (\<lambda>w. obj_get w ''word'') chunk)
     @ ''. Return JSON array of objects with "originalWord", "newWord", "newIPA", "changeLog".''\<close>

text \<open>\<^verbatim>\<open>findIndex\<close> and \<^verbatim>\<open>find\<close> with a callback that may throw.\<close>

fun findIndex :: "('a \<Rightarrow> exn + bool) \<Rightarrow> 'a list \<Rightarrow> exn + nat option" where
  "findIndex f [] = Inr None"
| "findIndex f (x # xs) =
     (case f x of
        Inl e \<Rightarrow> Inl e
      | Inr b \<Rightarrow>
          if b then Inr (Some 0)
          else (case findIndex f xs of Inl e \<Rightarrow> Inl e | Inr r \<Rightarrow> Inr (map_option Suc r)))"

fun find_first :: "('a \<Rightarrow> exn + bool) \<Rightarrow> 'a list \<Rightarrow> exn + 'a option" where
  "find_first f [] = Inr None"
| "find_first f (x # xs) =
     (case f x of
        Inl e \<Rightarrow> Inl e
      | Inr b \<Rightarrow> if b then Inr (Some x) else find_first f xs)"

text \<open>
  The callback of \<^verbatim>\<open>results.forEach\<close>, on the working copy, in two parts: the index
  found together with the object literal built for it, and the assignment to
  \<^verbatim>\<open>evolvedLexicon[index]\<close>.
\<close>

definition evolve_update :: "obj list \<Rightarrow> jsval \<Rightarrow> exn + (nat \<times> obj) option" where
  "evolve_update evolvedLexicon res =
     (case findIndex
             (\<lambda>w. case get_prop res ''originalWord'' of
                     Inl e \<Rightarrow> Inl e
                   | Inr originalWord \<Rightarrow> Inr (strict_eq (obj_get w ''word'') originalWord))
             evolvedLexicon of
        Inl e \<Rightarrow> Inl e
      | Inr None \<Rightarrow> Inr None
      | Inr (Some index) \<Rightarrow>
          (case get_prop res ''newWord'' of Inl e \<Rightarrow> Inl e | Inr newWord \<Rightarrow>
           case get_prop res ''newIPA'' of Inl e \<Rightarrow> Inl e | Inr newIPA \<Rightarrow>
           case get_prop res ''changeLog'' of Inl e \<Rightarrow> Inl e | Inr changeLog \<Rightarrow>
             (let old = evolvedLexicon ! index;
                  etymology = obj_get old ''etymology'';
                  new_etymology =
                    JStr (to_str (if truthy etymology then etymology else JStr [])
                          @ ''; '' @ to_str changeLog)
              in Inr (Some (index,
                            obj_set ''etymology'' new_etymology
                              (obj_set ''ipa'' newIPA (obj_set ''word'' newWord old)))))))"

definition evolve_record :: "obj list \<Rightarrow> jsval \<Rightarrow> exn + obj list" where
  "evolve_record evolvedLexicon res =
     (case evolve_update evolvedLexicon res of
        Inl e \<Rightarrow> Inl e
      | Inr None \<Rightarrow> Inr evolvedLexicon
      | Inr (Some (index, entry)) \<Rightarrow> Inr (evolvedLexicon[index := entry]))"

fun apply_records :: "obj list \<Rightarrow> jsval list \<Rightarrow> exn + obj list" where
  "apply_records evolvedLexicon [] = Inr evolvedLexicon"
| "apply_records evolvedLexicon (res # rest) =
     (case evolve_record evolvedLexicon res of
        Inl e \<Rightarrow> Inl e
      | Inr evolvedLexicon' \<Rightarrow> apply_records evolvedLexicon' rest)"

definition forEach_result :: "obj list \<Rightarrow> jsval \<Rightarrow> exn + obj list" where
  "forEach_result evolvedLexicon results =
     (case results of
        JArr rs \<Rightarrow> apply_records evolvedLexicon rs
      | _ \<Rightarrow> Inl (TypeError ''results.forEach is not a function''))"

text \<open>The \<^verbatim>\<open>for\<close> loop; \<^verbatim>\<open>CHUNK_SIZE\<close> is 10.\<close>

function evolve_loop ::
  "platform \<Rightarrow> SoundChangeRule list \<Rightarrow> obj list \<Rightarrow> nat \<Rightarrow> string list \<Rightarrow> obj list
     \<Rightarrow> string list \<times> (exn + obj list)" where
  "evolve_loop w rules words i calls evolvedLexicon =
     (if i < length words then
        (let chunk = slice words i (i + 10);
             prompt = evolve_prompt rules chunk
         in case remote w (length calls) prompt of
              Inl e \<Rightarrow> (calls @ [prompt], Inl e)
            | Inr text \<Rightarrow>
                (case safeParseJSON (parse w) text of
                   Inl e \<Rightarrow> (calls @ [prompt], Inl e)
                 | Inr results \<Rightarrow>
                     (case forEach_result evolvedLexicon results of
                        Inl e \<Rightarrow> (calls @ [prompt], Inl e)
                      | Inr evolvedLexicon' \<Rightarrow>
                          evolve_loop w rules words (i + 10)
                            (calls @ [prompt]) evolvedLexicon')))
      else (calls, Inr evolvedLexicon))"
  by pat_completeness auto
termination
  by (relation "measure (\<lambda>(w, rules, ws, i, calls, acc). length ws - i)") auto

declare evolve_loop.simps [simp del]

definition evolveWords ::
  "platform \<Rightarrow> obj list \<Rightarrow> SoundChangeRule list \<Rightarrow> string list \<times> obj list" where
  "evolveWords w words rules =
     (if length words = 0 \<or> length rules = 0 then ([], words)
      else
        (case getGenAI w of
           Inl e \<Rightarrow> ([], words)
         | Inr genAI \<Rightarrow>
             (case evolve_loop w rules words 0 [] words of
                (calls, Inr evolvedLexicon) \<Rightarrow> (calls, evolvedLexicon)
              | (calls, Inl e) \<Rightarrow> (calls, words))))"

subsection \<open>processCommandAI\<close>

definition command_prompt :: "string \<Rightarrow> ProjectConstraints \<Rightarrow> string" where
  \<open>command_prompt instruction constraints =
     ''Apply bulk changes to lexicon. Instruction: "'' @ instruction
     @ ''". Constraints: '' @ allowedGraphemes constraints
     @ ''. Return JSON object with "modifications" array containing objects with "id" ''
     @ ''and changed fields.''\<close>

text \<open>
  The callback of \<^verbatim>\<open>lexicon.map\<close>; only an array has a \<^verbatim>\<open>find\<close> method. The
  callback returns the entry it was given (\<open>None\<close> below) or a new object, the entry with
  the properties of the modification spread over it.
\<close>

definition merge_choice :: "jsval \<Rightarrow> obj \<Rightarrow> exn + obj option" where
  "merge_choice mods entry =
     (case mods of
        JArr ms \<Rightarrow>
          (case find_first
                  (\<lambda>m. case get_prop m ''id'' of
                          Inl e \<Rightarrow> Inl e
                        | Inr mid \<Rightarrow> Inr (strict_eq mid (obj_get entry ''id'')))
                  ms of
             Inl e \<Rightarrow> Inl e
           | Inr None \<Rightarrow> Inr None
           | Inr (Some modif) \<Rightarrow> Inr (if truthy modif then Some (spread entry modif) else None))
      | _ \<Rightarrow> Inl (TypeError ''mods.find is not a function''))"

definition merge_entry :: "jsval \<Rightarrow> obj \<Rightarrow> exn + obj" where
  "merge_entry mods entry =
     (case merge_choice mods entry of
        Inl e \<Rightarrow> Inl e
      | Inr None \<Rightarrow> Inr entry
      | Inr (Some merged) \<Rightarrow> Inr merged)"

fun map_exn :: "('a \<Rightarrow> exn + 'b) \<Rightarrow> 'a list \<Rightarrow> exn + 'b list" where
  "map_exn f [] = Inr []"
| "map_exn f (x # xs) =
     (case f x of
        Inl e \<Rightarrow> Inl e
      | Inr y \<Rightarrow> (case map_exn f xs of Inl e \<Rightarrow> Inl e | Inr ys \<Rightarrow> Inr (y # ys)))"

text \<open>
  \<^verbatim>\<open>mods.length\<close> is read after the map; the lexicon is not empty there, so the map
  has thrown unless \<^verbatim>\<open>mods\<close> is an array.
\<close>

definition processCommandAI_try ::
  "platform \<Rightarrow> obj list \<Rightarrow> string \<Rightarrow> ProjectConstraints
     \<Rightarrow> string list \<times> (exn + nat \<times> obj list)" where
  "processCommandAI_try w lexicon instruction constraints =
     (case getGenAI w of
        Inl e \<Rightarrow> ([], Inl e)
      | Inr genAI \<Rightarrow>
          (let prompt = command_prompt instruction constraints
           in case remote w 0 prompt of
                Inl e \<Rightarrow> ([prompt], Inl e)
              | Inr text \<Rightarrow>
                  (case safeParseJSON (parse w) text of
                     Inl e \<Rightarrow> ([prompt], Inl e)
                   | Inr resultData \<Rightarrow>
                       (case get_prop resultData ''modifications'' of
                          Inl e \<Rightarrow> ([prompt], Inl e)
                        | Inr m \<Rightarrow>
                            (let mods = (if truthy m then m else JArr [])
                             in case map_exn (merge_entry mods) lexicon of
                                  Inl e \<Rightarrow> ([prompt], Inl e)
                                | Inr newLex \<Rightarrow>
                                    ([prompt],
                                     Inr (length (array_or_empty mods), newLex)))))))"

definition processCommandAI ::
  "platform \<Rightarrow> obj list \<Rightarrow> string \<Rightarrow> ProjectConstraints \<Rightarrow> string list \<times> command_result" where
  "processCommandAI w lexicon instruction constraints =
     (if length lexicon = 0
      then ([], \<lparr> success = False, message = None, modifiedCount = 0, newLexicon = None \<rparr>)
      else
        (case processCommandAI_try w lexicon instruction constraints of
           (calls, Inr (count, lexicon')) \<Rightarrow>
             (calls, \<lparr> success = True, message = None,
                       modifiedCount = count, newLexicon = Some lexicon' \<rparr>)
         | (calls, Inl e) \<Rightarrow>
             (calls, \<lparr> success = False, message = Some (emessage e),
                       modifiedCount = 0, newLexicon = None \<rparr>)))"

subsection \<open>generatePhonology\<close>

definition phonology_prompt :: "string \<Rightarrow> string" where
  \<open>phonology_prompt descr =
     ''Create phonology from description: "'' @ descr
     @ ''". Your response MUST be a JSON object that strictly adheres to the PhonologyConfig ''
     @ ''TypeScript interface, including all fields. If a field has no data, use an empty ''
     @ ''array for lists (e.g., `consonants`, `vowels`, `bannedCombinations`) or an empty ''
     @ ''string for strings (e.g., `name`, `description`, `syllableStructure`). DO NOT ''
     @ ''include any conversational text, markdown fences (e.g., ```json), or extra ''
     @ ''characters, just the raw JSON object. Example of a complete PhonologyConfig JSON ''
     @ ''object: {"name":"", "description":"", "consonants":[], "vowels":[], ''
     @ ''"syllableStructure":"", "bannedCombinations":[]}''\<close>

definition defaultPhonology :: PhonologyConfig where
  "defaultPhonology =
     \<lparr> name = ''Default Phonology'',
       description = ''Failed to generate phonology. Please check your API key and prompt.'',
       consonants = [],
       vowels = [],
       syllableStructure = ''CV'',
       bannedCombinations = [] \<rparr>"

definition generatePhonology_try ::
  "platform \<Rightarrow> string \<Rightarrow> string list \<times> (exn + PhonologyConfig)" where
  "generatePhonology_try w descr =
     (case getGenAI w of
        Inl e \<Rightarrow> ([], Inl e)
      | Inr genAI \<Rightarrow>
          (let prompt = phonology_prompt descr
           in case remote w 0 prompt of
                Inl e \<Rightarrow> ([prompt], Inl e)
              | Inr textResponse \<Rightarrow>
                  ([prompt], safeParsePhonologyConfig (parse w) textResponse)))"

definition generatePhonology :: "platform \<Rightarrow> string \<Rightarrow> string list \<times> PhonologyConfig" where
  "generatePhonology w descr =
     (case generatePhonology_try w descr of
        (calls, Inr parsedPhonology) \<Rightarrow> (calls, parsedPhonology)
      | (calls, Inl error) \<Rightarrow> (calls, defaultPhonology))"

subsection \<open>Chunks and adapter calls\<close>

text \<open>
  The notions the properties of the two loops are stated with: the partition of a list
  into contiguous chunks, one adapter call (the remote call and the extraction of its
  answer), and the run of a loop body over a list of chunks.
\<close>

function chunksOf :: "nat \<Rightarrow> 'a list \<Rightarrow> 'a list list" where
  "chunksOf n xs = (if n = 0 \<or> xs = [] then [] else take n xs # chunksOf n (drop n xs))"
  by pat_completeness auto
termination
  by (relation "measure (\<lambda>(n, xs). length xs)") auto

declare chunksOf.simps [simp del]

definition call_outcome :: "platform \<Rightarrow> nat \<Rightarrow> string \<Rightarrow> exn + jsval" where
  "call_outcome w k prompt =
     (case remote w k prompt of
        Inl e \<Rightarrow> Inl e
      | Inr text \<Rightarrow> safeParseJSON (parse w) text)"

definition call_outcomes :: "platform \<Rightarrow> string list \<Rightarrow> (exn + jsval) list" where
  "call_outcomes w prompts = map (\<lambda>(k, p). call_outcome w k p) (enumerate 0 prompts)"

fun run_chunks ::
  "(nat \<Rightarrow> 'a list \<Rightarrow> 'b \<Rightarrow> string \<times> (exn + 'b)) \<Rightarrow> 'a list list \<Rightarrow> string list \<Rightarrow> 'b
     \<Rightarrow> string list \<times> (exn + 'b)" where
  "run_chunks step [] calls acc = (calls, Inr acc)"
| "run_chunks step (c # cs) calls acc =
     (case step (length calls) c acc of
        (p, Inl e) \<Rightarrow> (calls @ [p], Inl e)
      | (p, Inr acc') \<Rightarrow> run_chunks step cs (calls @ [p]) acc')"

definition repair_step ::
  "platform \<Rightarrow> string \<Rightarrow> nat \<Rightarrow> obj list \<Rightarrow> jsval list \<Rightarrow> string \<times> (exn + jsval list)" where
  "repair_step w rules k chunk allRepairs =
     (repair_prompt w rules chunk,
      case call_outcome w k (repair_prompt w rules chunk) of
        Inl e \<Rightarrow> Inl e
      | Inr repairedChunk \<Rightarrow>
          (case iterate repairedChunk of
             Inl e \<Rightarrow> Inl e
           | Inr xs \<Rightarrow> Inr (allRepairs @ xs)))"

definition evolve_step ::
  "platform \<Rightarrow> SoundChangeRule list \<Rightarrow> nat \<Rightarrow> obj list \<Rightarrow> obj list
     \<Rightarrow> string \<times> (exn + obj list)" where
  "evolve_step w rules k chunk evolvedLexicon =
     (evolve_prompt rules chunk,
      case call_outcome w k (evolve_prompt rules chunk) of
        Inl e \<Rightarrow> Inl e
      | Inr results \<Rightarrow> forEach_result evolvedLexicon results)"


subsection \<open>Sample data and test doubles\<close>

definition sample_entry :: "nat \<Rightarrow> obj" where
  "sample_entry n =
     [(''id'', JStr (''e'' @ dec_digits n)),
      (''word'', JStr (''w'' @ dec_digits n)),
      (''ipa'', JStr ''/w/'')]"

definition sample_lexicon :: "nat \<Rightarrow> obj list" where
  "sample_lexicon n = map sample_entry [0..<n]"

definition sample_constraints :: ProjectConstraints where
  "sample_constraints =
     \<lparr> bannedSequences = [''kk''], allowedGraphemes = ''a-z'', phonotacticStructure = ''CV'' \<rparr>"

definition sample_rules :: "SoundChangeRule list" where
  "sample_rules = [\<lparr> rule = ''o > u'' \<rparr>]"

definition fenced :: "string \<Rightarrow> string" where
  "fenced s = fence_open @ s @ fence_close"

definition fetch_failed :: exn where
  "fetch_failed = Exn ''TypeError'' ''fetch failed''"

text \<open>A platform with a key, whose remote model gives the same answer to every call.\<close>

definition canned_platform :: "string \<Rightarrow> platform" where
  "canned_platform answer =
     \<lparr> stored_key = Some ''test-key'', env_key = None, remote = (\<lambda>k p. Inr answer),
       parse = JSON_parse, stringify = JSON_stringify \<rparr>"

text \<open>The same without a key, and with a network that is down.\<close>

definition keyless_platform :: "string \<Rightarrow> platform" where
  "keyless_platform answer = (canned_platform answer) \<lparr> stored_key := None \<rparr>"

definition offline_platform :: platform where
  "offline_platform = (canned_platform []) \<lparr> remote := (\<lambda>k p. Inl fetch_failed) \<rparr>"

text \<open>A remote model that answers an empty array, except that its second call is rejected.\<close>

definition flaky_platform :: platform where
  "flaky_platform =
     (canned_platform [])
       \<lparr> remote := (\<lambda>k p. if k = 1 then Inl fetch_failed else Inr ''[]'') \<rparr>"



subsection \<open>Reading a property without an exception\<close>

text \<open>
  The value of a property of a value that is neither \<^verbatim>\<open>null\<close> nor
  \<^verbatim>\<open>undefined\<close>: \<^verbatim>\<open>undefined\<close> when the property is absent.
\<close>

definition field :: "jsval \<Rightarrow> string \<Rightarrow> jsval" where
  "field v k = (case v of JObj ps \<Rightarrow> obj_get ps k | _ \<Rightarrow> JUndef)"

text \<open>The default configuration, as a remote model could answer it.\<close>

definition default_answer :: string where
  \<open>default_answer =
     ''{"name":"Default Phonology","description":"Failed to generate phonology. ''
     @ ''Please check your API key and prompt.","consonants":[],"vowels":[],''
     @ ''"syllableStructure":"CV","bannedCombinations":[]}''\<close>

subsection \<open>The candidate in the words of the specification\<close>

text \<open>
  Following the specification's wording of step 2: the text holds a \<open>{\<close> and, after it, a
  \<open>}\<close>; the candidate is the part of the text from the first \<open>{\<close> to the last \<open>}\<close>.
\<close>

definition brace_pair :: "string \<Rightarrow> bool" where
  "brace_pair t = (CHR ''}'' \<in> set (dropWhile (\<lambda>c. c \<noteq> CHR ''{'') t))"

definition brace_span :: "string \<Rightarrow> string" where
  "brace_span t =
     dropWhile (\<lambda>c. c \<noteq> CHR ''{'') (rev (dropWhile (\<lambda>c. c \<noteq> CHR ''}'') (rev t)))"


text \<open>Two answers with a fence: one with nothing inside, one with prose inside.\<close>

definition empty_fence_text :: string where
  \<open>empty_fence_text = fence_open @ fence_close @ ''{"a":1}''\<close>

definition bad_fence_text :: string where
  \<open>bad_fence_text = fenced ''not json'' @ nl @ ''{"a":1}''\<close>

text \<open>
  Two words of which the first evolves into the second, with the rules and the answer of the
  remote model for them; and the lexicon and the answer of the command example of the
  specification.
\<close>

definition collision_words :: "obj list" where
  "collision_words =
     [[(''id'', JStr ''e0''), (''word'', JStr ''pat''), (''ipa'', JStr ''/pat/'')],
      [(''id'', JStr ''e1''), (''word'', JStr ''bat''), (''ipa'', JStr ''/bat/'')]]"

definition collision_rules :: "SoundChangeRule list" where
  "collision_rules = [\<lparr> rule = ''p > b'' \<rparr>, \<lparr> rule = ''t > d'' \<rparr>]"

definition collision_answer :: string where
  \<open>collision_answer =
     fenced (''[{"originalWord":"pat","newWord":"bat","newIPA":"/bat/","changeLog":"p>b"},''
             @ ''{"originalWord":"bat","newWord":"bad","newIPA":"/bad/","changeLog":"t>d"}]'')\<close>

definition command_lexicon :: "obj list" where
  "command_lexicon =
     [[(''id'', JStr ''a''), (''word'', JStr ''foo'')],
      [(''id'', JStr ''b''), (''word'', JStr ''bar'')]]"

definition command_answer :: string where
  \<open>command_answer = ''{"modifications":[{"id":"a","word":"FOO"}]}''\<close>

section \<open>Properties\<close>

subsection \<open>The extraction fails without a brace or bracket\<close>

lemma indexOf_None: "indexOf s c = None \<longleftrightarrow> c \<notin> set s"
  by (induction s) auto

lemma lastIndexOf_None: "lastIndexOf s c = None \<longleftrightarrow> c \<notin> set s"
  by (induction s) (auto split: option.splits)

lemma set_trim: "set (trim s) \<subseteq> set s"
  unfolding trim_def by (metis set_rev set_dropWhileD subsetI)

lemma regex_search_sub:
  assumes "\<And>s m. at s = Some m \<Longrightarrow> set m \<subseteq> set s"
  shows "regex_search at t = Some m \<Longrightarrow> set m \<subseteq> set t"
  using assms by (induction t) (fastforce split: option.splits)+

lemma markdown_at_sub: "markdown_at s = Some m \<Longrightarrow> set m \<subseteq> set s"
  by (auto simp: markdown_at_def Let_def split: if_splits option.splits dest!: in_set_takeD in_set_dropD)

lemma markdownMatch_sub: "markdownMatch t = Some m \<Longrightarrow> set m \<subseteq> set t"
  unfolding markdownMatch_def by (rule regex_search_sub[OF markdown_at_sub])

lemma aggressive_at_has_brace: "aggressive_at s = Some m \<Longrightarrow> CHR ''{'' \<in> set s"
  by (auto simp: aggressive_at_def split: list.splits if_splits)

lemma regex_search_None:
  assumes "\<And>s. set s \<subseteq> set t \<Longrightarrow> at s = None"
  shows "regex_search at t = None"
  using assms
proof (induction t)
  case Nil
  then show ?case by simp
next
  case (Cons x xs)
  have "at (x # xs) = None" using Cons.prems by simp
  moreover have "regex_search at xs = None"
    by (rule Cons.IH) (use Cons.prems in auto)
  ultimately show ?case by simp
qed

lemma aggressiveMatch_no_brace: "CHR ''{'' \<notin> set t \<Longrightarrow> aggressiveMatch t = None"
  unfolding aggressiveMatch_def
  by (rule regex_search_None) (metis aggressive_at_has_brace not_Some_eq subsetD)

lemma select_candidate_no_brace:
  assumes "CHR ''{'' \<notin> set t"
  shows "set (select_candidate t) \<subseteq> set t"
proof -
  have i: "indexOf t (CHR ''{'') = None"
    using assms by (simp add: indexOf_None)
  have a: "aggressiveMatch t = None"
    using assms by (rule aggressiveMatch_no_brace)
  show ?thesis
  proof (cases "markdownMatch t")
    case None
    then show ?thesis
      using set_trim[of t] by (simp add: select_candidate_def i a)
  next
    case (Some m)
    then show ?thesis
      using set_trim[of t] markdownMatch_sub[OF Some]
      by (cases m) (simp_all add: select_candidate_def i a)
  qed
qed

lemma clean_candidate_no_start:
  assumes "CHR ''{'' \<notin> set c" "CHR ''['' \<notin> set c"
  shows "clean_candidate c = Inl NoJSONStart"
proof -
  have a: "CHR ''{'' \<notin> set (trim c)" and b: "CHR ''['' \<notin> set (trim c)"
    using assms set_trim[of c] by auto
  have s: "\<not> startsWith (trim c) (CHR ''{'')" "\<not> startsWith (trim c) (CHR ''['')"
    using a b by (auto simp: startsWith_def split: list.splits)
  have i: "indexOf (trim c) (CHR ''{'') = None" "indexOf (trim c) (CHR ''['') = None"
    using a b by (simp_all add: indexOf_None)
  show ?thesis
    by (simp add: clean_candidate_def s i)
qed

text \<open>
  Claim C6. A text that contains no \<open>{\<close> and no \<open>[\<close> makes \<^verbatim>\<open>safeParseJSON\<close> fail
  with the error \<^verbatim>\<open>No valid JSON start found after aggressive cleaning.\<close> (the
  specification's \<^verbatim>\<open>MalformedResponse\<close>), whatever \<^verbatim>\<open>JSON.parse\<close> does, and the one
  console entry written before the error leaves the function holds the raw text. The
  absence of a fenced block and of a brace pair need not be assumed: a fence without
  brace and bracket inside fails in the same way.
\<close>

theorem safeParseJSON_no_json_start:
  assumes "CHR ''{'' \<notin> set t" and "CHR ''['' \<notin> set t"
  shows "safeParseJSON_log p t = ([[''JSON Parse Error. Raw content:'', t]], Inl NoJSONStart)
       \<and> safeParseJSON p t = Inl NoJSONStart"
proof -
  have "set (select_candidate t) \<subseteq> set t"
    by (rule select_candidate_no_brace[OF assms(1)])
  then have "clean_candidate (select_candidate t) = Inl NoJSONStart"
    using assms by (intro clean_candidate_no_start) auto
  then show ?thesis
    by (simp add: safeParseJSON_def safeParseJSON_log_def safeParseJSON_try_def)
qed

theorem safeParseJSON_no_json_start_witness:
  "CHR ''{'' \<notin> set ''Sorry, I cannot help.''
   \<and> CHR ''['' \<notin> set ''Sorry, I cannot help.''
   \<and> safeParseJSON_log JSON_parse ''Sorry, I cannot help.'' =
       ([[''JSON Parse Error. Raw content:'', ''Sorry, I cannot help.'']], Inl NoJSONStart)
   \<and> safeParseJSON JSON_parse ''Sorry, I cannot help.'' = Inl NoJSONStart"
  using safeParseJSON_no_json_start[of "''Sorry, I cannot help.''" JSON_parse] by simp

subsection \<open>Chunks\<close>

lemma chunksOf_Nil [simp]: "chunksOf n [] = []"
  by (simp add: chunksOf.simps)

lemma chunksOf_step: "0 < n \<Longrightarrow> xs \<noteq> [] \<Longrightarrow> chunksOf n xs = take n xs # chunksOf n (drop n xs)"
  by (subst chunksOf.simps) simp


lemma length_chunksOf: "0 < n \<Longrightarrow> length (chunksOf n xs) = (length xs + n - 1) div n"
proof (induction n xs rule: chunksOf.induct)
  case (1 n xs)
  show ?case
  proof (cases "xs = []")
    case True
    then show ?thesis using 1(2) by simp
  next
    case False
    then have ih: "length (chunksOf n (drop n xs)) = (length (drop n xs) + n - 1) div n"
      using 1 by simp
    show ?thesis
    proof (cases "length xs \<le> n")
      case True
      have "n * 1 \<le> length xs + n - 1" "length xs + n - 1 < n * Suc 1"
        using False True 1(2) by (cases xs; simp)+
      then have "(length xs + n - 1) div n = 1"
        by (rule Euclidean_Rings.div_nat_eqI)
      with True False 1(2) show ?thesis by (simp add: chunksOf_step)
    next
      case F: False
      then have "length xs + n - 1 = (length xs - n + n - 1) + n" by simp
      then have "(length xs + n - 1) div n = Suc ((length xs - n + n - 1) div n)"
        using 1(2) by (metis div_add_self2 Suc_eq_plus1 less_numeral_extra(3))
      with ih False 1(2) show ?thesis by (simp add: chunksOf_step)
    qed
  qed
qed


subsection \<open>The loops as runs over the chunks\<close>

lemma slice_take_drop: "slice xs i (i + n) = take n (drop i xs)"
  by (simp add: slice_def)

lemma chunksOf_drop:
  "i < length xs \<Longrightarrow> 0 < n \<Longrightarrow>
     chunksOf n (drop i xs) = slice xs i (i + n) # chunksOf n (drop (i + n) xs)"
  by (simp add: chunksOf_step slice_take_drop add.commute)

lemma chunksOf_drop_end: "\<not> i < length xs \<Longrightarrow> chunksOf n (drop i xs) = []"
  by simp

lemma repair_loop_run:
  "repair_loop w rules es i calls acc =
     run_chunks (repair_step w rules) (chunksOf 15 (drop i es)) calls acc"
proof (induction w rules es i calls acc rule: repair_loop.induct)
  case (1 w rules es i calls acc)
  show ?case
  proof (cases "i < length es")
    case False
    then show ?thesis
      by (subst repair_loop.simps) (simp add: chunksOf_drop_end)
  next
    case True
    let ?p = "repair_prompt w rules (slice es i (i + 15))"
    have c: "chunksOf 15 (drop i es) = slice es i (i + 15) # chunksOf 15 (drop (i + 15) es)"
      using True by (simp add: chunksOf_drop)
    show ?thesis
    proof (cases "remote w (length calls) ?p")
      case (Inl e)
      then show ?thesis using True
        by (subst repair_loop.simps) (simp add: c repair_step_def call_outcome_def)
    next
      case (Inr t)
      show ?thesis
      proof (cases "safeParseJSON (parse w) t")
        case (Inl e)
        then show ?thesis using True Inr
          by (subst repair_loop.simps) (simp add: c repair_step_def call_outcome_def)
      next
        case P: (Inr v)
        show ?thesis
        proof (cases "iterate v")
          case (Inl e)
          then show ?thesis using True Inr P
            by (subst repair_loop.simps) (simp add: c repair_step_def call_outcome_def)
        next
          case I: (Inr xs)
          have "repair_loop w rules es (i + 15) (calls @ [?p]) (acc @ xs) =
                run_chunks (repair_step w rules) (chunksOf 15 (drop (i + 15) es)) (calls @ [?p]) (acc @ xs)"
            using 1[OF True refl refl Inr P I] .
          then show ?thesis using True Inr P I
            by (subst repair_loop.simps) (simp add: c repair_step_def call_outcome_def)
        qed
      qed
    qed
  qed
qed

lemma evolve_loop_run:
  "evolve_loop w rules ws i calls acc =
     run_chunks (evolve_step w rules) (chunksOf 10 (drop i ws)) calls acc"
proof (induction w rules ws i calls acc rule: evolve_loop.induct)
  case (1 w rules ws i calls acc)
  show ?case
  proof (cases "i < length ws")
    case False
    then show ?thesis
      by (subst evolve_loop.simps) (simp add: chunksOf_drop_end)
  next
    case True
    let ?p = "evolve_prompt rules (slice ws i (i + 10))"
    have c: "chunksOf 10 (drop i ws) = slice ws i (i + 10) # chunksOf 10 (drop (i + 10) ws)"
      using True by (simp add: chunksOf_drop)
    show ?thesis
    proof (cases "remote w (length calls) ?p")
      case (Inl e)
      then show ?thesis using True
        by (subst evolve_loop.simps) (simp add: c evolve_step_def call_outcome_def)
    next
      case (Inr t)
      show ?thesis
      proof (cases "safeParseJSON (parse w) t")
        case (Inl e)
        then show ?thesis using True Inr
          by (subst evolve_loop.simps) (simp add: c evolve_step_def call_outcome_def)
      next
        case P: (Inr v)
        show ?thesis
        proof (cases "forEach_result acc v")
          case (Inl e)
          then show ?thesis using True Inr P
            by (subst evolve_loop.simps) (simp add: c evolve_step_def call_outcome_def)
        next
          case I: (Inr acc')
          have "evolve_loop w rules ws (i + 10) (calls @ [?p]) acc' =
                run_chunks (evolve_step w rules) (chunksOf 10 (drop (i + 10) ws)) (calls @ [?p]) acc'"
            using 1[OF True refl refl Inr P I] .
          then show ?thesis using True Inr P I
            by (subst evolve_loop.simps) (simp add: c evolve_step_def call_outcome_def)
        qed
      qed
    qed
  qed
qed

text \<open>A chunk whose step fails for every accumulator stops the run.\<close>

lemma run_chunks_fails:
  assumes "k < length cs"
    and "\<And>a. isl (snd (step (length calls + k) (cs ! k) a))"
  shows "isl (snd (run_chunks step cs calls acc))
       \<and> length (fst (run_chunks step cs calls acc)) \<le> length calls + k + 1"
  using assms
proof (induction cs arbitrary: k calls acc)
  case Nil
  then show ?case by simp
next
  case (Cons c cs)
  obtain p r where s: "step (length calls) c acc = (p, r)"
    by (cases "step (length calls) c acc")
  show ?case
  proof (cases r)
    case (Inl e)
    then show ?thesis using s by simp
  next
    case (Inr acc')
    have k0: "k \<noteq> 0"
    proof
      assume "k = 0"
      then have "isl (snd (step (length calls) c acc))" using Cons.prems(2)[of acc] by simp
      then show False using s Inr by simp
    qed
    then obtain k' where k': "k = Suc k'" by (cases k) auto
    have "isl (snd (run_chunks step cs (calls @ [p]) acc'))
        \<and> length (fst (run_chunks step cs (calls @ [p]) acc')) \<le> length (calls @ [p]) + k' + 1"
    proof (rule Cons.IH)
      show "k' < length cs" using Cons.prems(1) k' by simp
      show "\<And>a. isl (snd (step (length (calls @ [p]) + k') (cs ! k') a))"
        using Cons.prems(2) k' by simp
    qed
    then show ?thesis using s Inr k' by simp
  qed
qed

subsection \<open>Runs that succeed and runs that fail\<close>


lemma length_call_outcomes [simp]: "length (call_outcomes w ps) = length ps"
  by (simp add: call_outcomes_def)





lemma evolve_record_length:
  "evolve_record a r = Inr a' \<Longrightarrow> length a' = length a"
  by (auto simp: evolve_record_def split: sum.splits option.splits)


lemma getGenAI_ok: "getApiKey w \<noteq> [] \<Longrightarrow> \<exists>g. getGenAI w = Inr g"
  by (simp add: getGenAI_def)

lemma getGenAI_empty: "getApiKey w = [] \<Longrightarrow> getGenAI w = Inl ConfigurationError"
  by (simp add: getGenAI_def)



lemma repairLexicon_fails:
  assumes "k < length (chunksOf 15 es)"
    and "isl (call_outcome w k (repair_prompt w (repair_rules c) (chunksOf 15 es ! k)))"
  shows "success (snd (repairLexicon w es c)) = False
       \<and> repairs (snd (repairLexicon w es c)) = []
       \<and> (\<exists>m. message (snd (repairLexicon w es c)) = Some (''AI Repair Failed: '' @ m))
       \<and> length (fst (repairLexicon w es c)) \<le> k + 1"
proof -
  have ne: "es \<noteq> []" using assms(1) by auto
  show ?thesis
  proof (cases "getGenAI w")
    case (Inl e)
    then show ?thesis using ne
      by (simp add: repairLexicon_def repairLexicon_try_def Let_def)
  next
    case (Inr g)
    have "isl (snd (run_chunks (repair_step w (repair_rules c)) (chunksOf 15 es) [] []))
        \<and> length (fst (run_chunks (repair_step w (repair_rules c)) (chunksOf 15 es) [] [])) \<le> length ([]::string list) + k + 1"
      by (rule run_chunks_fails) (use assms in \<open>auto simp: repair_step_def split: sum.splits\<close>)
    then obtain calls e where
      r: "run_chunks (repair_step w (repair_rules c)) (chunksOf 15 es) [] [] = (calls, Inl e)"
      and l: "length calls \<le> k + 1"
      by (cases "run_chunks (repair_step w (repair_rules c)) (chunksOf 15 es) [] []")
         (auto simp: isl_def)
    show ?thesis using ne Inr r l
      by (simp add: repairLexicon_def repairLexicon_try_def repair_loop_run Let_def)
  qed
qed

lemma evolveWords_fails:
  assumes "k < length (chunksOf 10 ws)"
    and "isl (call_outcome w k (evolve_prompt rules (chunksOf 10 ws ! k)))"
  shows "snd (evolveWords w ws rules) = ws \<and> length (fst (evolveWords w ws rules)) \<le> k + 1"
proof (cases "getGenAI w")
  case (Inl e)
  then show ?thesis by (simp add: evolveWords_def)
next
  case (Inr g)
  have "isl (snd (run_chunks (evolve_step w rules) (chunksOf 10 ws) [] ws))
      \<and> length (fst (run_chunks (evolve_step w rules) (chunksOf 10 ws) [] ws)) \<le> length ([]::string list) + k + 1"
    by (rule run_chunks_fails) (use assms in \<open>auto simp: evolve_step_def split: sum.splits\<close>)
  then obtain calls e where
    r: "run_chunks (evolve_step w rules) (chunksOf 10 ws) [] ws = (calls, Inl e)"
    and l: "length calls \<le> k + 1"
    by (cases "run_chunks (evolve_step w rules) (chunksOf 10 ws) [] ws") (auto simp: isl_def)
  show ?thesis using Inr r l
    by (simp add: evolveWords_def evolve_loop_run)
qed

lemma length_sample_lexicon [simp]: "length (sample_lexicon n) = n"
  by (simp add: sample_lexicon_def)

subsection \<open>The two failure policies\<close>

text \<open>
  Claim C2. Let the \<open>k\<close>-th chunk be one whose remote call is rejected or whose answer
  \<^verbatim>\<open>safeParseJSON\<close> cannot parse. Then \<^verbatim>\<open>repairLexicon\<close> returns a failure: \<open>success\<close>
  is false, \<open>repairs\<close> is empty whatever the earlier chunks produced, and the message
  starts with \<^verbatim>\<open>AI Repair Failed: \<close>; \<^verbatim>\<open>evolveWords\<close> under the same fault returns
  the list it was given. No call is sent after the failing one. This holds for every
  input list, every position \<open>k\<close> and every platform.
\<close>

theorem failure_policies:
  "(k < length (chunksOf 15 es)
      \<and> isl (call_outcome w k (repair_prompt w (repair_rules c) (chunksOf 15 es ! k)))
    \<longrightarrow> success (snd (repairLexicon w es c)) = False
        \<and> repairs (snd (repairLexicon w es c)) = []
        \<and> (\<exists>m. message (snd (repairLexicon w es c)) = Some (''AI Repair Failed: '' @ m))
        \<and> length (fst (repairLexicon w es c)) \<le> k + 1)
   \<and> (k < length (chunksOf 10 ws)
      \<and> isl (call_outcome w k (evolve_prompt rules (chunksOf 10 ws ! k)))
    \<longrightarrow> snd (evolveWords w ws rules) = ws
        \<and> length (fst (evolveWords w ws rules)) \<le> k + 1)"
  using repairLexicon_fails[of k es w c] evolveWords_fails[of k ws w rules] by blast

theorem failure_policies_witness:
  "(1 < length (chunksOf 15 (sample_lexicon 37))
      \<and> isl (call_outcome flaky_platform 1
               (repair_prompt flaky_platform (repair_rules sample_constraints)
                  (chunksOf 15 (sample_lexicon 37) ! 1))))
   \<and> (success (snd (repairLexicon flaky_platform (sample_lexicon 37) sample_constraints)) = False
        \<and> repairs (snd (repairLexicon flaky_platform (sample_lexicon 37) sample_constraints)) = []
        \<and> (\<exists>m. message (snd (repairLexicon flaky_platform (sample_lexicon 37) sample_constraints))
                   = Some (''AI Repair Failed: '' @ m))
        \<and> length (fst (repairLexicon flaky_platform (sample_lexicon 37) sample_constraints)) \<le> 1 + 1)
   \<and> (1 < length (chunksOf 10 (sample_lexicon 37))
      \<and> isl (call_outcome flaky_platform 1
               (evolve_prompt sample_rules (chunksOf 10 (sample_lexicon 37) ! 1))))
   \<and> (snd (evolveWords flaky_platform (sample_lexicon 37) sample_rules) = sample_lexicon 37
        \<and> length (fst (evolveWords flaky_platform (sample_lexicon 37) sample_rules)) \<le> 1 + 1)"
proof -
  have a: "1 < length (chunksOf 15 (sample_lexicon 37))"
    by (simp add: length_chunksOf)
  have b: "1 < length (chunksOf 10 (sample_lexicon 37))"
    by (simp add: length_chunksOf)
  have c: "\<And>p. isl (call_outcome flaky_platform 1 p)"
    by (simp add: call_outcome_def flaky_platform_def)
  show ?thesis
    using failure_policies[of 1 "sample_lexicon 37" flaky_platform sample_constraints
                              "sample_lexicon 37" sample_rules] a b c
    by blast
qed



subsection \<open>The batch loops\<close>









subsection \<open>The phonology normaliser\<close>

lemma get_prop_field:
  "v \<noteq> JNull \<Longrightarrow> v \<noteq> JUndef \<Longrightarrow> get_prop v k = Inr (field v k)"
  by (cases v) (simp_all add: get_prop_def field_def)


text \<open>
  Claim C4. On every value other than \<^verbatim>\<open>null\<close> and \<^verbatim>\<open>undefined\<close> the normalisation
  returns a configuration, with all six fields: \<open>name\<close>, \<open>description\<close> and
  \<open>syllableStructure\<close> hold the value of the source when it is a string and the empty
  string otherwise; \<open>consonants\<close>, \<open>vowels\<close> and \<open>bannedCombinations\<close> hold the value of the
  source when it is an array and the empty list otherwise. The empty object gives the
  empty configuration, and a number for \<open>name\<close> or a string for \<open>consonants\<close> is replaced by
  the default while the well-typed fields beside them are kept.

  The hypothesis covers every extracted value: \<^verbatim>\<open>safeParseJSON\<close> returns what
  \<^verbatim>\<open>JSON.parse\<close> returns on a text that starts with a brace or a bracket
  (\<open>safeParseJSON_source\<close> below), and that is an object or an array
  (\<open>JSON_parse_container\<close>, for the reference parser), so after an extraction that
  succeeded \<^verbatim>\<open>safeParsePhonologyConfig\<close> does not fail
  (\<open>safeParsePhonologyConfig_after_extraction\<close>).
\<close>

theorem normalizePhonology_total:
  assumes "v \<noteq> JNull" and "v \<noteq> JUndef"
  shows "normalizePhonology v =
     Inr \<lparr> name = (case field v ''name'' of JStr s \<Rightarrow> s | _ \<Rightarrow> []),
           description = (case field v ''description'' of JStr s \<Rightarrow> s | _ \<Rightarrow> []),
           consonants = (case field v ''consonants'' of JArr xs \<Rightarrow> xs | _ \<Rightarrow> []),
           vowels = (case field v ''vowels'' of JArr xs \<Rightarrow> xs | _ \<Rightarrow> []),
           syllableStructure = (case field v ''syllableStructure'' of JStr s \<Rightarrow> s | _ \<Rightarrow> []),
           bannedCombinations =
             (case field v ''bannedCombinations'' of JArr xs \<Rightarrow> xs | _ \<Rightarrow> []) \<rparr>"
  by (simp add: normalizePhonology_def get_prop_field[OF assms]
        string_or_empty_def array_or_empty_def)

theorem normalizePhonology_total_witness:
  "JObj [] \<noteq> JNull \<and> JObj [] \<noteq> JUndef
   \<and> normalizePhonology (JObj []) =
       Inr \<lparr> name = [], description = [], consonants = [], vowels = [],
             syllableStructure = [], bannedCombinations = [] \<rparr>
   \<and> normalizePhonology
        (JObj [(''name'', JNum 5), (''consonants'', JStr ''not-array''),
               (''description'', JStr ''tonal''), (''vowels'', JArr [JStr ''a'', JNum 1])]) =
       Inr \<lparr> name = [], description = ''tonal'', consonants = [],
             vowels = [JStr ''a'', JNum 1], syllableStructure = [], bannedCombinations = [] \<rparr>"
  using normalizePhonology_total[of "JObj []"]
        normalizePhonology_total[of "JObj [(''name'', JNum 5), (''consonants'', JStr ''not-array''),
               (''description'', JStr ''tonal''), (''vowels'', JArr [JStr ''a'', JNum 1])]"]
  by (simp add: field_def obj_get_def)

lemma clean_candidate_start:
  assumes "clean_candidate c = Inr s"
  shows "startsWith s (CHR ''{'') \<or> startsWith s (CHR ''['')"
proof -
  have d: "indexOf t ch = Some i \<Longrightarrow> startsWith (drop i t) ch" for t ch i
  proof (induction t arbitrary: i)
    case Nil
    then show ?case by simp
  next
    case (Cons x xs)
    then show ?case by (auto simp: startsWith_def split: if_splits)
  qed
  show ?thesis
    using assms d[of "trim c" "CHR ''{''"] d[of "trim c" "CHR ''[''"]
    by (auto simp: clean_candidate_def Let_def substring_from_def split: if_splits)
qed

lemma safeParseJSON_source:
  assumes "safeParseJSON p t = Inr v"
  shows "\<exists>s. (startsWith s (CHR ''{'') \<or> startsWith s (CHR ''['')) \<and> p s = Inr v"
  using assms clean_candidate_start[of "select_candidate t"]
  by (auto simp: safeParseJSON_def safeParseJSON_log_def safeParseJSON_try_def split: sum.splits)

lemma parse_members_obj:
  "parse_members n acc s = Some (v, r) \<Longrightarrow> \<exists>ps. v = JObj ps"
proof (induction n arbitrary: acc s)
  case 0
  then show ?case by simp
next
  case (Suc n)
  then show ?case
    by (auto split: list.splits if_splits option.splits prod.splits)
qed

lemma parse_elems_arr:
  "parse_elems n acc s = Some (v, r) \<Longrightarrow> \<exists>xs. v = JArr xs"
proof (induction n arbitrary: acc s)
  case 0
  then show ?case by simp
next
  case (Suc n)
  then show ?case
    by (auto split: list.splits if_splits option.splits prod.splits)
qed

lemma parse_value_container:
  assumes "parse_value (Suc n) (c # r) = Some (v, rest)" and "c = CHR ''{'' \<or> c = CHR ''[''"
  shows "(\<exists>ps. v = JObj ps) \<or> (\<exists>xs. v = JArr xs)"
proof -
  have w: "dropWhile is_json_ws (c # r) = c # r"
    using assms(2) by (auto simp: is_json_ws_def)
  show ?thesis
    using assms parse_members_obj[of n "[]" r v rest] parse_elems_arr[of n "[]" r v rest]
    unfolding parse_value.simps w
    by (auto split: list.splits if_splits)
qed

lemma JSON_parse_container:
  assumes "startsWith s (CHR ''{'') \<or> startsWith s (CHR ''['')" and "JSON_parse s = Inr v"
  shows "v \<noteq> JNull \<and> v \<noteq> JUndef"
proof -
  obtain c r where s: "s = c # r" and c: "c = CHR ''{'' \<or> c = CHR ''[''"
    using assms(1) by (auto simp: startsWith_def split: list.splits)
  obtain rest where "parse_value (Suc (length s)) s = Some (v, rest)"
    using assms(2) by (auto simp: JSON_parse_def split: option.splits if_splits)
  then have "(\<exists>ps. v = JObj ps) \<or> (\<exists>xs. v = JArr xs)"
    unfolding s using c by (rule parse_value_container)
  then show ?thesis by auto
qed

lemma safeParsePhonologyConfig_after_extraction:
  assumes "safeParseJSON JSON_parse t = Inr v"
  shows "\<exists>cfg. safeParsePhonologyConfig JSON_parse t = Inr cfg"
proof -
  obtain s where "startsWith s (CHR ''{'') \<or> startsWith s (CHR ''['')" "JSON_parse s = Inr v"
    using safeParseJSON_source[OF assms] by blast
  then have "v \<noteq> JNull \<and> v \<noteq> JUndef" by (rule JSON_parse_container)
  then show ?thesis
    using assms by (simp add: safeParsePhonologyConfig_def normalizePhonology_def get_prop_field)
qed

subsection \<open>Missing credential and transport errors\<close>

lemma repair_loop_first_rejected:
  assumes "es \<noteq> []" and "remote w 0 (repair_prompt w rules (slice es 0 15)) = Inl e"
  shows "repair_loop w rules es 0 [] [] = ([repair_prompt w rules (slice es 0 15)], Inl e)"
  using assms by (subst repair_loop.simps) simp

lemma evolve_loop_first_rejected:
  assumes "ws \<noteq> []" and "remote w 0 (evolve_prompt rules (slice ws 0 10)) = Inl e"
  shows "evolve_loop w rules ws 0 [] ws = ([evolve_prompt rules (slice ws 0 10)], Inl e)"
  using assms by (subst evolve_loop.simps) simp

lemma keyless_key: "getApiKey (keyless_platform a) = []"
  by (simp add: keyless_platform_def canned_platform_def getApiKey_def trim_def strip_quotes_def)

lemma canned_key: "getApiKey (canned_platform a) \<noteq> []"
  unfolding canned_platform_def getApiKey_def by (simp, code_simp)

lemma canned_fields:
  "remote (canned_platform a) k p = Inr a" "parse (canned_platform a) = JSON_parse"
  "stringify (canned_platform a) = JSON_stringify"
  by (simp_all add: canned_platform_def)

lemma offline_key: "getApiKey offline_platform \<noteq> []"
  using canned_key[of "[]"]
  by (simp add: offline_platform_def canned_platform_def getApiKey_def)

lemma offline_remote: "remote offline_platform 0 p = Inl fetch_failed"
  by (simp add: offline_platform_def)

text \<open>
  Claim C8, as the code has it. Without a credential \<^verbatim>\<open>getGenAI\<close> throws the error
  \<^verbatim>\<open>API Key not configured. Please set it in Settings.\<close> (the specification's
  \<^verbatim>\<open>ConfigurationError\<close>), and every operation that has passed its guard on empty input
  ends with its failure result without sending a prompt: a failure record for
  \<^verbatim>\<open>repairLexicon\<close> and \<^verbatim>\<open>processCommandAI\<close>, a fixed text for \<^verbatim>\<open>suggestIPA\<close> and
  \<^verbatim>\<open>analyzeSyntax\<close>, the caller's list for \<^verbatim>\<open>evolveWords\<close>, the default
  configuration for \<^verbatim>\<open>generatePhonology\<close>. When the first remote call is rejected
  (the specification's \<^verbatim>\<open>TransportError\<close>) the same results are returned, now with
  the cause in the message. Only \<^verbatim>\<open>generateWords\<close> throws: a new error whose message
  starts with \<^verbatim>\<open>Error generating words: \<close>; it never returns an empty list.

  The guards on empty input come first: \<^verbatim>\<open>repairLexicon\<close> on an empty list and
  \<^verbatim>\<open>processCommandAI\<close> on an empty lexicon return before the credential is looked at
  (hence the hypotheses \<open>es \<noteq> []\<close> and \<open>lx \<noteq> []\<close>).
\<close>

theorem credential_and_transport_errors:
  "(getApiKey w = [] \<longrightarrow>
      getGenAI w = Inl ConfigurationError
    \<and> (es \<noteq> [] \<longrightarrow>
         repairLexicon w es c =
           ([], \<lparr> success = False,
                  message = Some (''AI Repair Failed: '' @ emessage ConfigurationError
                                  @ ''. Verifica tu API key en Settings.''),
                  repairs = [] \<rparr>))
    \<and> suggestIPA w word phon = ([], ''/error/'')
    \<and> generateWords w n vibe pr =
         ([], Inl (Exn ''Error'' (''Error generating words: '' @ emessage ConfigurationError)))
    \<and> evolveWords w ws rules = ([], ws)
    \<and> (lx \<noteq> [] \<longrightarrow>
         processCommandAI w lx instr c =
           ([], \<lparr> success = False, message = Some (emessage ConfigurationError),
                  modifiedCount = 0, newLexicon = None \<rparr>))
    \<and> analyzeSyntax w sentence grammar morph = ([], ''Error analyzing syntax. Verifica tu API key.'')
    \<and> generatePhonology w descr = ([], defaultPhonology))
   \<and> (getApiKey w \<noteq> [] \<and> (\<forall>p. remote w 0 p = Inl e) \<longrightarrow>
      (es \<noteq> [] \<longrightarrow>
         repairLexicon w es c =
           ([repair_prompt w (repair_rules c) (slice es 0 15)],
            \<lparr> success = False,
              message = Some (''AI Repair Failed: '' @ errorMsg e
                              @ ''. Verifica tu API key en Settings.''),
              repairs = [] \<rparr>))
    \<and> snd (suggestIPA w word phon) = ''/error/''
    \<and> snd (generateWords w n vibe pr) =
         Inl (Exn ''Error''
                (''Error generating words: ''
                 @ (if emessage e \<noteq> [] then emessage e else ''Verifica tu API key en Settings'')))
    \<and> snd (evolveWords w ws rules) = ws
    \<and> (lx \<noteq> [] \<longrightarrow>
         snd (processCommandAI w lx instr c) =
           \<lparr> success = False, message = Some (emessage e),
             modifiedCount = 0, newLexicon = None \<rparr>)
    \<and> snd (analyzeSyntax w sentence grammar morph) = ''Error analyzing syntax. Verifica tu API key.''
    \<and> snd (generatePhonology w descr) = defaultPhonology)
   \<and> snd (generateWords w n vibe pr) \<noteq> Inr []"
proof (intro conjI impI)
  assume k: "getApiKey w = []"
  then show g: "getGenAI w = Inl ConfigurationError" by (rule getGenAI_empty)
  show "suggestIPA w word phon = ([], ''/error/'')"
    by (simp add: suggestIPA_def g)
  show "generateWords w n vibe pr =
         ([], Inl (Exn ''Error'' (''Error generating words: '' @ emessage ConfigurationError)))"
    by (simp add: generateWords_def generateWords_try_def g ConfigurationError_def)
  show "evolveWords w ws rules = ([], ws)"
    by (simp add: evolveWords_def g)
  show "analyzeSyntax w sentence grammar morph = ([], ''Error analyzing syntax. Verifica tu API key.'')"
    by (simp add: analyzeSyntax_def g)
  show "generatePhonology w descr = ([], defaultPhonology)"
    by (simp add: generatePhonology_def generatePhonology_try_def g)
  {
    assume "es \<noteq> []"
    then show "repairLexicon w es c =
           ([], \<lparr> success = False,
                  message = Some (''AI Repair Failed: '' @ emessage ConfigurationError
                                  @ ''. Verifica tu API key en Settings.''),
                  repairs = [] \<rparr>)"
      by (simp add: repairLexicon_def repairLexicon_try_def g ConfigurationError_def errorMsg_def)
  }
  {
    assume "lx \<noteq> []"
    then show "processCommandAI w lx instr c =
           ([], \<lparr> success = False, message = Some (emessage ConfigurationError),
                  modifiedCount = 0, newLexicon = None \<rparr>)"
      by (simp add: processCommandAI_def processCommandAI_try_def g)
  }
next
  assume a: "getApiKey w \<noteq> [] \<and> (\<forall>p. remote w 0 p = Inl e)"
  then obtain gen where g: "getGenAI w = Inr gen" using getGenAI_ok by blast
  have r: "\<And>p. remote w 0 p = Inl e" using a by simp
  show "snd (suggestIPA w word phon) = ''/error/''"
    by (simp add: suggestIPA_def g r)
  show "snd (generateWords w n vibe pr) =
         Inl (Exn ''Error''
                (''Error generating words: ''
                 @ (if emessage e \<noteq> [] then emessage e else ''Verifica tu API key en Settings'')))"
    by (simp add: generateWords_def generateWords_try_def g r)
  show "snd (evolveWords w ws rules) = ws"
    by (simp add: evolveWords_def g r evolve_loop_first_rejected)
  show "snd (analyzeSyntax w sentence grammar morph) = ''Error analyzing syntax. Verifica tu API key.''"
    by (simp add: analyzeSyntax_def g r)
  show "snd (generatePhonology w descr) = defaultPhonology"
    by (simp add: generatePhonology_def generatePhonology_try_def g r)
  {
    assume "es \<noteq> []"
    then show "repairLexicon w es c =
           ([repair_prompt w (repair_rules c) (slice es 0 15)],
            \<lparr> success = False,
              message = Some (''AI Repair Failed: '' @ errorMsg e
                              @ ''. Verifica tu API key en Settings.''),
              repairs = [] \<rparr>)"
      by (simp add: repairLexicon_def repairLexicon_try_def g r repair_loop_first_rejected)
  }
  {
    assume "lx \<noteq> []"
    then show "snd (processCommandAI w lx instr c) =
           \<lparr> success = False, message = Some (emessage e),
             modifiedCount = 0, newLexicon = None \<rparr>"
      by (simp add: processCommandAI_def processCommandAI_try_def g r)
  }
next
  show "snd (generateWords w n vibe pr) \<noteq> Inr []"
    by (auto simp: generateWords_def generateWords_try_def Let_def
             split: sum.splits prod.splits jsval.splits list.splits)
qed


theorem credential_and_transport_errors_witness:
  "getApiKey (keyless_platform []) = [] \<and> sample_lexicon 1 \<noteq> []
   \<and> repairLexicon (keyless_platform []) (sample_lexicon 1) sample_constraints =
       ([], \<lparr> success = False,
              message = Some (''AI Repair Failed: '' @ emessage ConfigurationError
                              @ ''. Verifica tu API key en Settings.''),
              repairs = [] \<rparr>)
   \<and> generateWords (keyless_platform []) 5 ''soft'' None =
       ([], Inl (Exn ''Error'' (''Error generating words: '' @ emessage ConfigurationError)))
   \<and> processCommandAI (keyless_platform []) (sample_lexicon 1) ''upper'' sample_constraints =
       ([], \<lparr> success = False, message = Some (emessage ConfigurationError),
              modifiedCount = 0, newLexicon = None \<rparr>)
   \<and> getApiKey offline_platform \<noteq> [] \<and> (\<forall>p. remote offline_platform 0 p = Inl fetch_failed)
   \<and> snd (generateWords offline_platform 5 ''soft'' None) =
       Inl (Exn ''Error'' ''Error generating words: fetch failed'')
   \<and> snd (processCommandAI offline_platform (sample_lexicon 1) ''upper'' sample_constraints) =
       \<lparr> success = False, message = Some ''fetch failed'', modifiedCount = 0, newLexicon = None \<rparr>
   \<and> snd (evolveWords offline_platform (sample_lexicon 1) sample_rules) = sample_lexicon 1"
proof -
  have n: "sample_lexicon 1 \<noteq> []" by (simp add: sample_lexicon_def)
  have r: "\<forall>p. remote offline_platform 0 p = Inl fetch_failed" by (simp add: offline_remote)
  show ?thesis
    using credential_and_transport_errors[of "keyless_platform []" "sample_lexicon 1"
            sample_constraints "[]" "[]" 5 "''soft''" None "[]" "[]" "sample_lexicon 1"
            "''upper''" "[]" "[]" JUndef "[]" fetch_failed]
          credential_and_transport_errors[of offline_platform "sample_lexicon 1"
            sample_constraints "[]" "[]" 5 "''soft''" None "sample_lexicon 1" sample_rules
            "sample_lexicon 1" "''upper''" "[]" "[]" JUndef "[]" fetch_failed]
          keyless_key[of "[]"] offline_key n r
    by (simp add: fetch_failed_def)
qed

text \<open>
  Claim C8 as stated fails on empty input: without a credential, \<^verbatim>\<open>repairLexicon\<close> on
  the empty list does not fail, it returns its success record.
\<close>

theorem repairLexicon_empty_without_key:
  "getApiKey (keyless_platform []) = []
   \<and> repairLexicon (keyless_platform []) [] sample_constraints =
       ([], \<lparr> success = True, message = None, repairs = [] \<rparr>)"
  using keyless_key[of "[]"] by (simp add: repairLexicon_def)

subsection \<open>generatePhonology\<close>

lemma default_answer_parsed:
  "safeParsePhonologyConfig JSON_parse default_answer = Inr defaultPhonology"
  by code_simp

text \<open>
  Claim C10. \<^verbatim>\<open>generatePhonology\<close> catches every exception of its body and returns the
  default configuration, named \<^verbatim>\<open>Default Phonology\<close> with the syllable structure
  \<^verbatim>\<open>CV\<close>: so it does when the credential is missing, when the remote call is rejected,
  and when the answer cannot be parsed or normalised. The result does not tell a failure
  from a success: for every description, the call on a platform whose network is down and
  the call on a platform whose model answers the default configuration return the same
  prompts and the same configuration.
\<close>

theorem generatePhonology_never_rejects:
  "(getApiKey w = []
      \<or> (\<exists>e. remote w 0 (phonology_prompt d) = Inl e)
      \<or> (\<exists>t e. remote w 0 (phonology_prompt d) = Inr t
             \<and> safeParsePhonologyConfig (parse w) t = Inl e)
    \<longrightarrow> snd (generatePhonology w d) = defaultPhonology)
   \<and> (\<forall>e. snd (generatePhonology_try w d) = Inl e
         \<longrightarrow> snd (generatePhonology w d) = defaultPhonology)
   \<and> name defaultPhonology = ''Default Phonology''
   \<and> syllableStructure defaultPhonology = ''CV''
   \<and> snd (generatePhonology_try offline_platform d) = Inl fetch_failed
   \<and> snd (generatePhonology_try (canned_platform default_answer) d) = Inr defaultPhonology
   \<and> generatePhonology offline_platform d = generatePhonology (canned_platform default_answer) d"
proof (intro conjI impI allI)
  assume a: "getApiKey w = []
      \<or> (\<exists>e. remote w 0 (phonology_prompt d) = Inl e)
      \<or> (\<exists>t e. remote w 0 (phonology_prompt d) = Inr t
             \<and> safeParsePhonologyConfig (parse w) t = Inl e)"
  show "snd (generatePhonology w d) = defaultPhonology"
  proof (cases "getGenAI w")
    case (Inl e)
    then show ?thesis by (simp add: generatePhonology_def generatePhonology_try_def)
  next
    case (Inr g)
    then have "getApiKey w \<noteq> []" by (auto simp: getGenAI_def Let_def split: if_splits)
    with a show ?thesis
      using Inr by (auto simp: generatePhonology_def generatePhonology_try_def)
  qed
next
  fix e assume "snd (generatePhonology_try w d) = Inl e"
  then show "snd (generatePhonology w d) = defaultPhonology"
    by (cases "generatePhonology_try w d") (simp add: generatePhonology_def)
next
  show "name defaultPhonology = ''Default Phonology''"
    "syllableStructure defaultPhonology = ''CV''"
    by (simp_all add: defaultPhonology_def)
  obtain g where g: "getGenAI offline_platform = Inr g"
    using getGenAI_ok[OF offline_key] by blast
  obtain g' where g': "getGenAI (canned_platform default_answer) = Inr g'"
    using getGenAI_ok[OF canned_key] by blast
  show o: "snd (generatePhonology_try offline_platform d) = Inl fetch_failed"
    by (simp add: generatePhonology_try_def g offline_remote)
  show c: "snd (generatePhonology_try (canned_platform default_answer) d) = Inr defaultPhonology"
    using default_answer_parsed
    by (simp add: generatePhonology_try_def g' canned_fields)
  show "generatePhonology offline_platform d = generatePhonology (canned_platform default_answer) d"
    using default_answer_parsed
    by (simp add: generatePhonology_def generatePhonology_try_def g g' offline_remote
          canned_fields)
qed

theorem generatePhonology_never_rejects_witness:
  "(\<exists>e. remote offline_platform 0 (phonology_prompt ''five vowels'') = Inl e)
   \<and> snd (generatePhonology offline_platform ''five vowels'') = defaultPhonology
   \<and> snd (generatePhonology_try offline_platform ''five vowels'') = Inl fetch_failed
   \<and> generatePhonology offline_platform ''five vowels'' =
       generatePhonology (canned_platform default_answer) ''five vowels''"
  using generatePhonology_never_rejects[of offline_platform "''five vowels''"] offline_remote
  by blast

subsection \<open>The choice of the candidate\<close>

lemma indexOf_Some:
  "indexOf t c = Some i \<Longrightarrow>
     i < length t \<and> t ! i = c \<and> c \<notin> set (take i t) \<and> dropWhile (\<lambda>x. x \<noteq> c) t = drop i t"
proof (induction t arbitrary: i)
  case Nil
  then show ?case by simp
next
  case (Cons x xs)
  then show ?case by (auto split: if_splits)
qed

lemma lastIndexOf_Some:
  "lastIndexOf t c = Some j \<Longrightarrow>
     j < length t \<and> t ! j = c \<and> c \<notin> set (drop (Suc j) t)
     \<and> rev (dropWhile (\<lambda>x. x \<noteq> c) (rev t)) = take (Suc j) t"
proof (induction t arbitrary: j)
  case Nil
  then show ?case by simp
next
  case (Cons x xs)
  show ?case
  proof (cases "lastIndexOf xs c")
    case None
    then have n: "c \<notin> set xs" by (simp add: lastIndexOf_None)
    then have "dropWhile (\<lambda>x. x \<noteq> c) (rev xs) = []" by auto
    with Cons.prems None n show ?thesis
      by (auto simp: dropWhile_append split: if_splits)
  next
    case (Some k)
    then have ih: "k < length xs \<and> xs ! k = c \<and> c \<notin> set (drop (Suc k) xs)
       \<and> rev (dropWhile (\<lambda>x. x \<noteq> c) (rev xs)) = take (Suc k) xs"
      by (rule Cons.IH)
    then have "c \<in> set (rev xs)" by (metis nth_mem set_rev)
    then have "dropWhile (\<lambda>x. x \<noteq> c) (rev xs @ [x]) = dropWhile (\<lambda>x. x \<noteq> c) (rev xs) @ [x]"
      by (auto simp: dropWhile_append)
    with Cons.prems Some ih show ?thesis by auto
  qed
qed

lemma indexOf_take:
  "indexOf t c = Some i \<Longrightarrow> i < n \<Longrightarrow> indexOf (take n t) c = Some i"
proof (induction t arbitrary: i n)
  case Nil
  then show ?case by simp
next
  case (Cons x xs)
  then show ?case by (cases n) (auto split: if_splits)
qed

lemma curly_test:
  "(indexOf t (CHR ''{'') \<noteq> None \<and> lastIndexOf t (CHR ''}'') \<noteq> None
      \<and> the (lastIndexOf t (CHR ''}'')) > the (indexOf t (CHR ''{''))) = brace_pair t"
proof (cases "indexOf t (CHR ''{'')")
  case None
  then have "CHR ''{'' \<notin> set t" by (simp add: indexOf_None)
  then have d: "dropWhile (\<lambda>c. c \<noteq> CHR ''{'') t = []" by auto
  show ?thesis unfolding brace_pair_def d using None by simp
next
  case (Some i)
  note i = indexOf_Some[OF Some]
  show ?thesis
  proof (cases "lastIndexOf t (CHR ''}'')")
    case None
    then have "CHR ''}'' \<notin> set t" by (simp add: lastIndexOf_None)
    then have "CHR ''}'' \<notin> set (drop i t)" by (meson in_set_dropD)
    with None Some i show ?thesis by (simp add: brace_pair_def)
  next
    case j: (Some j)
    note jj = lastIndexOf_Some[OF j]
    have "i < j \<longleftrightarrow> CHR ''}'' \<in> set (drop i t)"
    proof
      assume "i < j"
      then have "drop i t ! (j - i) = t ! j" "j - i < length (drop i t)"
        using jj by auto
      then have "t ! j \<in> set (drop i t)"
        by (metis nth_mem)
      then show "CHR ''}'' \<in> set (drop i t)" using jj by simp
    next
      assume a: "CHR ''}'' \<in> set (drop i t)"
      show "i < j"
      proof (rule ccontr)
        assume "\<not> i < j"
        then have "j \<le> i" by simp
        moreover have "j \<noteq> i" using i jj by auto
        ultimately have "Suc j \<le> i" by simp
        then have "set (drop i t) \<subseteq> set (drop (Suc j) t)" by (rule set_drop_subset_set_drop)
        with a jj show False by auto
      qed
    qed
    with Some j i show ?thesis by (simp add: brace_pair_def)
  qed
qed

lemma curly_substring:
  assumes "brace_pair t"
  shows "substring t (the (indexOf t (CHR ''{''))) (the (lastIndexOf t (CHR ''}'')) + 1) = brace_span t"
proof -
  from assms obtain i j where i: "indexOf t (CHR ''{'') = Some i"
    and j: "lastIndexOf t (CHR ''}'') = Some j" and ij: "i < j"
    using curly_test[of t] by auto
  have "indexOf (take (Suc j) t) (CHR ''{'') = Some i"
    using i ij by (intro indexOf_take) simp_all
  then have "dropWhile (\<lambda>c. c \<noteq> CHR ''{'') (take (Suc j) t) = drop i (take (Suc j) t)"
    using indexOf_Some by blast
  then have "brace_span t = drop i (take (Suc j) t)"
    using lastIndexOf_Some[OF j] by (simp add: brace_span_def)
  also have "\<dots> = take (Suc j - i) (drop i t)"
    by (simp add: drop_take)
  finally show ?thesis
    using i j by (simp add: substring_def)
qed

lemma regex_search_suffix:
  "regex_search at t = Some m \<Longrightarrow> \<exists>pre s. t = pre @ s \<and> at s = Some m"
proof (induction t)
  case Nil
  then show ?case by simp
next
  case (Cons x xs)
  show ?case
  proof (cases "at (x # xs)")
    case None
    with Cons obtain pre s where "xs = pre @ s" "at s = Some m" by auto
    then have "x # xs = (x # pre) @ s \<and> at s = Some m" by simp
    then show ?thesis by blast
  next
    case (Some a)
    with Cons.prems have "x # xs = [] @ (x # xs) \<and> at (x # xs) = Some m" by simp
    then show ?thesis by blast
  qed
qed

lemma aggressive_at_pair:
  assumes "aggressive_at s = Some m"
  shows "\<exists>r. s = CHR ''{'' # r \<and> CHR ''}'' \<in> set r"
proof -
  from assms obtain r where s: "s = CHR ''{'' # r"
    by (auto simp: aggressive_at_def split: list.splits if_splits)
  let ?r1 = "dropWhile is_space r"
  let ?r2 = "dropWhile is_key_char ?r1"
  from assms s obtain r3 k where r2: "?r2 = CHR '':'' # r3" and k: "indexOf r3 (CHR ''}'') = Some k"
    by (auto simp: aggressive_at_def Let_def split: list.splits if_splits option.splits)
  have "CHR ''}'' \<in> set r3" using k by (metis indexOf_None option.distinct(1))
  then have "CHR ''}'' \<in> set ?r2" using r2 by simp
  then have "CHR ''}'' \<in> set r" by (meson set_dropWhileD)
  with s show ?thesis by blast
qed

lemma aggressiveMatch_dead:
  assumes "\<not> brace_pair t"
  shows "aggressiveMatch t = None"
proof (rule ccontr)
  assume "aggressiveMatch t \<noteq> None"
  then obtain m where m: "regex_search aggressive_at t = Some m"
    by (auto simp: aggressiveMatch_def)
  obtain pre s where t: "t = pre @ s" and a: "aggressive_at s = Some m"
    using regex_search_suffix[OF m] by auto
  obtain r where s: "s = CHR ''{'' # r" and r: "CHR ''}'' \<in> set r"
    using aggressive_at_pair[OF a] by auto
  have "CHR ''}'' \<in> set (dropWhile (\<lambda>c. c \<noteq> CHR ''{'') (pre @ CHR ''{'' # r))"
  proof (cases "CHR ''{'' \<in> set pre")
    case True
    then have "dropWhile (\<lambda>c. c \<noteq> CHR ''{'') (pre @ CHR ''{'' # r) =
               dropWhile (\<lambda>c. c \<noteq> CHR ''{'') pre @ CHR ''{'' # r"
      by (induction pre) auto
    then show ?thesis using r by simp
  next
    case False
    then have "dropWhile (\<lambda>c. c \<noteq> CHR ''{'') (pre @ CHR ''{'' # r) = CHR ''{'' # r"
      by (induction pre) auto
    then show ?thesis using r by simp
  qed
  then show False using assms unfolding t s brace_pair_def by simp
qed

lemma safeParseJSON_parses_once: "safeParseJSON p t =
       (case clean_candidate (select_candidate t) of Inl e \<Rightarrow> Inl e | Inr s \<Rightarrow> p s)"
  by (simp add: safeParseJSON_def safeParseJSON_log_def safeParseJSON_try_def split: sum.splits)

lemma select_candidate_steps: "(let firstCurly = indexOf t (CHR ''{'');
               lastCurly = lastIndexOf t (CHR ''}'')
           in if firstCurly \<noteq> None \<and> lastCurly \<noteq> None \<and> the lastCurly > the firstCurly
              then substring t (the firstCurly) (the lastCurly + 1)
              else (case aggressiveMatch t of
                      Some (c # cs) \<Rightarrow> c # cs
                    | _ \<Rightarrow> trim t)) =
        (if brace_pair t then brace_span t
             else (case aggressiveMatch t of Some (c # cs) \<Rightarrow> c # cs | _ \<Rightarrow> trim t))"
    unfolding Let_def curly_test using curly_substring[of t] by simp

text \<open>
  Claim C1, as the code has it. The candidate is chosen by what the text contains, not
  by what parses:
  \<^enum> the contents of the first \<^verbatim>\<open>```json\<close> fence, when there is one and its contents
    are not empty;
  \<^enum> otherwise the part from the first \<open>{\<close> to the last \<open>}\<close>, when a \<open>}\<close> follows a \<open>{\<close>;
  \<^enum> otherwise the first match of the loose expression, which never exists at this point
    (a match would hold a \<open>{\<close> followed by a \<open>}\<close>);
  \<^enum> otherwise the trimmed text.
  A step is reached exactly when the steps before it found nothing. The one candidate is
  cleaned and parsed once; when it does not parse the operation fails, and no later step
  is tried.
\<close>

theorem candidate_selection:
  "select_candidate t =
     (case markdownMatch t of
        Some (c # cs) \<Rightarrow> c # cs
      | _ \<Rightarrow> if brace_pair t then brace_span t
             else (case aggressiveMatch t of Some (c # cs) \<Rightarrow> c # cs | _ \<Rightarrow> trim t))
   \<and> (\<not> brace_pair t \<longrightarrow> aggressiveMatch t = None)
   \<and> safeParseJSON p t =
       (case clean_candidate (select_candidate t) of Inl e \<Rightarrow> Inl e | Inr s \<Rightarrow> p s)"
proof (intro conjI impI)
  show "select_candidate t =
     (case markdownMatch t of
        Some (c # cs) \<Rightarrow> c # cs
      | _ \<Rightarrow> if brace_pair t then brace_span t
             else (case aggressiveMatch t of Some (c # cs) \<Rightarrow> c # cs | _ \<Rightarrow> trim t))"
    unfolding select_candidate_def select_candidate_steps ..
  show "aggressiveMatch t = None" if "\<not> brace_pair t"
    using that by (rule aggressiveMatch_dead)
  show "safeParseJSON p t =
       (case clean_candidate (select_candidate t) of Inl e \<Rightarrow> Inl e | Inr s \<Rightarrow> p s)"
    by (rule safeParseJSON_parses_once)
qed

theorem candidate_selection_witness:
  "\<not> brace_pair ''[1, 2]'' \<and> aggressiveMatch ''[1, 2]'' = None
   \<and> select_candidate ''[1, 2]'' = ''[1, 2]''
   \<and> safeParseJSON JSON_parse ''[1, 2]'' = Inr (JArr [JNum 1, JNum 2])"
proof -
  have b: "\<not> brace_pair ''[1, 2]''" by (simp add: brace_pair_def)
  have m: "markdownMatch ''[1, 2]'' = None" by code_simp
  have t: "trim ''[1, 2]'' = ''[1, 2]''" by code_simp
  have c: "clean_candidate ''[1, 2]'' = Inr ''[1, 2]''" by code_simp
  have j: "JSON_parse ''[1, 2]'' = Inr (JArr [JNum 1, JNum 2])" by code_simp
  show ?thesis
    using candidate_selection[of "''[1, 2]''" JSON_parse] b m t c j by simp
qed

text \<open>
  Claim C1 as stated fails both ways. A fence with empty contents is present in the first
  text, and the result comes from step 2. In the second text the contents of the fence do
  not parse and the brace span does, and the operation fails without trying step 2.
\<close>

theorem selection_ignores_parse_results:
  "markdownMatch empty_fence_text = Some []
   \<and> safeParseJSON JSON_parse empty_fence_text = Inr (JObj [(''a'', JNum 1)])
   \<and> markdownMatch bad_fence_text = Some ''not json''
   \<and> isl (JSON_parse ''not json'')
   \<and> JSON_parse (brace_span bad_fence_text) = Inr (JObj [(''a'', JNum 1)])
   \<and> isl (safeParseJSON JSON_parse bad_fence_text)"
  by code_simp

subsection \<open>Bare JSON\<close>















subsection \<open>The merge rules\<close>

text \<open>
  What holds of the two merges. In \<^verbatim>\<open>evolveWords\<close>, an entry whose word equals the
  \<^verbatim>\<open>originalWord\<close> of no record keeps its place and is not changed. In
  \<^verbatim>\<open>processCommandAI\<close>, an entry whose identifier equals that of no modification is
  returned as it is, and the new lexicon has one entry for each entry of the caller, so a
  modification that matches no entry adds nothing; the example of the specification
  evaluates as stated.
\<close>

lemma findIndex_unmatched:
  assumes "findIndex f xs = Inr (Some k)"
  shows "k < length xs \<and> f (xs ! k) = Inr True"
  using assms
proof (induction xs arbitrary: k)
  case Nil
  then show ?case by simp
next
  case (Cons x xs)
  then show ?case
    by (auto split: sum.splits if_splits option.splits)
qed

lemma evolve_update_matched:
  assumes "evolve_update ev r = Inr (Some (k, entry))"
  shows "k < length ev \<and> r \<noteq> JNull \<and> r \<noteq> JUndef
       \<and> strict_eq (obj_get (ev ! k) ''word'') (field r ''originalWord'')"
proof -
  let ?f = "\<lambda>w. case get_prop r ''originalWord'' of
                     Inl e \<Rightarrow> Inl e
                   | Inr originalWord \<Rightarrow> Inr (strict_eq (obj_get w ''word'') originalWord)"
  have i: "findIndex ?f ev = Inr (Some k)"
    using assms by (auto simp: evolve_update_def Let_def split: sum.splits option.splits)
  note f = findIndex_unmatched[OF i]
  then obtain ow where g: "get_prop r ''originalWord'' = Inr ow"
    and m: "strict_eq (obj_get (ev ! k) ''word'') ow"
    by (auto split: sum.splits)
  have n: "r \<noteq> JNull" "r \<noteq> JUndef" using g by (auto simp: get_prop_def)
  then have "ow = field r ''originalWord''" using g by (simp add: get_prop_field)
  then show ?thesis using f m n by simp
qed

lemma evolve_record_unmatched:
  assumes "evolve_record ev r = Inr ev'" and "i < length ev"
    and "\<not> strict_eq (obj_get (ev ! i) ''word'') (field r ''originalWord'')"
  shows "ev' ! i = ev ! i"
proof (cases "evolve_update ev r")
  case (Inl e)
  then show ?thesis using assms(1) by (simp add: evolve_record_def)
next
  case (Inr found)
  show ?thesis
  proof (cases found)
    case None
    then show ?thesis using assms(1) Inr by (simp add: evolve_record_def)
  next
    case (Some ke)
    obtain k entry where ke: "ke = (k, entry)" by (cases ke)
    have "k \<noteq> i"
      using evolve_update_matched[OF Inr[unfolded Some ke]] assms(3) by auto
    then show ?thesis
      using assms(1) Inr Some ke by (auto simp: evolve_record_def)
  qed
qed

lemma apply_records_unmatched:
  assumes "apply_records ev rs = Inr ev'" and "i < length ev"
    and "\<forall>r\<in>set rs. \<not> strict_eq (obj_get (ev ! i) ''word'') (field r ''originalWord'')"
  shows "ev' ! i = ev ! i"
  using assms
proof (induction rs arbitrary: ev)
  case Nil
  then show ?case by simp
next
  case (Cons r rs)
  from Cons.prems(1) obtain ev1 where 1: "evolve_record ev r = Inr ev1"
    and 2: "apply_records ev1 rs = Inr ev'"
    by (auto split: sum.splits)
  have s: "ev1 ! i = ev ! i"
    using 1 Cons.prems(2,3) by (intro evolve_record_unmatched) auto
  have "ev' ! i = ev1 ! i"
  proof (rule Cons.IH[OF 2])
    show "i < length ev1" using evolve_record_length[OF 1] Cons.prems(2) by simp
    show "\<forall>r\<in>set rs. \<not> strict_eq (obj_get (ev1 ! i) ''word'') (field r ''originalWord'')"
      using Cons.prems(3) s by simp
  qed
  then show ?case using s by simp
qed

lemma find_first_none:
  assumes "\<forall>m\<in>set ms. f m = Inr False"
  shows "find_first f ms = Inr None"
  using assms by (induction ms) auto

lemma merge_entry_unmatched:
  assumes "\<forall>m\<in>set ms. m \<noteq> JNull \<and> m \<noteq> JUndef
             \<and> \<not> strict_eq (field m ''id'') (obj_get e ''id'')"
  shows "merge_entry (JArr ms) e = Inr e"
proof -
  have "find_first
          (\<lambda>m. case get_prop m ''id'' of
                  Inl e \<Rightarrow> Inl e
                | Inr mid \<Rightarrow> Inr (strict_eq mid (obj_get e ''id''))) ms = Inr None"
    by (rule find_first_none) (use assms in \<open>auto simp: get_prop_field\<close>)
  then show ?thesis by (simp add: merge_entry_def merge_choice_def)
qed

lemma map_exn_length: "map_exn f xs = Inr ys \<Longrightarrow> length ys = length xs"
  by (induction xs arbitrary: ys) (auto split: sum.splits)

lemma processCommandAI_example:
  "snd (processCommandAI (canned_platform command_answer) command_lexicon ''upper-case foo''
          sample_constraints) =
     \<lparr> success = True, message = None, modifiedCount = 1,
       newLexicon = Some [[(''id'', JStr ''a''), (''word'', JStr ''FOO'')],
                          [(''id'', JStr ''b''), (''word'', JStr ''bar'')]] \<rparr>"
  by code_simp

text \<open>
  Claim C5 fails for \<^verbatim>\<open>evolveWords\<close>: a record is matched against the words of the
  working copy, which the records before it have changed, not against the original words.
  With the words \<open>pat\<close> and \<open>bat\<close> and the records \<open>pat \<mapsto> bat\<close>, \<open>bat \<mapsto> bad\<close>, the second
  record is applied to the first entry, which the first record has just renamed to
  \<open>bat\<close>; the entry whose original word is \<open>bat\<close> is left as it was. Matching by the
  original word would give \<open>bat\<close> and \<open>bad\<close>.
\<close>

theorem evolveWords_matches_current_word:
  "snd (evolveWords (canned_platform collision_answer) collision_words collision_rules) =
     [[(''id'', JStr ''e0''), (''word'', JStr ''bad''), (''ipa'', JStr ''/bad/''),
       (''etymology'', JStr ''; p>b; t>d'')],
      [(''id'', JStr ''e1''), (''word'', JStr ''bat''), (''ipa'', JStr ''/bat/'')]]"
  by code_simp

end
